theory Spec2Isabelle
  imports
    Complex_Main
    "HOL-Library.AList"
    "HOL-Library.Char_ord"
    "HOL-Library.List_Lexorder"
    "HOL-Library.Product_Lexorder"
begin

section \<open>Values and errors\<close>

text \<open>
  The exceptions the modelled functions of \<^verbatim>\<open>src/utils.py\<close> can raise.  A
  \<^verbatim>\<open>ValueError\<close> carries its message, since the module raises it for an invalid task
  and numpy raises it for an empty concatenation.
\<close>

datatype error =
    ValueError string
  | RuntimeError
  | ZeroDivisionError
  | AttributeError
  | TypeError
  | KeyError string
  | IndexError

text \<open>
  A float is a finite value, an infinity or nan: torch and numpy do not raise on
  \<^verbatim>\<open>0/0\<close>, \<^verbatim>\<open>x/0\<close>, an overflow or the mean of an empty tensor, they return nan or an
  infinity, and a tensor may hold them.
\<close>

datatype fvalue = Fin real | PosInf | NegInf | NaN

text \<open>
  The rounding of an exact result to the float format, to an infinity when it overflows,
  is a parameter of the arithmetic: one rounding for the dtype of the tensors and one for
  Python's \<^verbatim>\<open>float\<close>.  Zero is unsigned: the zeros that the metric computation divides
  by (a sum of squares, \<^verbatim>\<open>1.0 + y\<close> at \<^verbatim>\<open>y = -1\<close>) are \<^verbatim>\<open>+0\<close>.
\<close>

type_synonym rounding = "real \<Rightarrow> fvalue"

record floats =
  tensor_round :: rounding
  python_round :: rounding

fun is_finite :: "fvalue \<Rightarrow> bool" where
  "is_finite (Fin x) = True"
| "is_finite v = False"

fun fneg :: "fvalue \<Rightarrow> fvalue" where
  "fneg (Fin x) = Fin (- x)"
| "fneg PosInf = NegInf"
| "fneg NegInf = PosInf"
| "fneg NaN = NaN"

fun fabs :: "fvalue \<Rightarrow> fvalue" where
  "fabs (Fin x) = Fin (abs x)"
| "fabs PosInf = PosInf"
| "fabs NegInf = PosInf"
| "fabs NaN = NaN"

fun fadd :: "rounding \<Rightarrow> fvalue \<Rightarrow> fvalue \<Rightarrow> fvalue" where
  "fadd rnd (Fin x) (Fin y) = rnd (x + y)"
| "fadd rnd NaN b = NaN"
| "fadd rnd a NaN = NaN"
| "fadd rnd PosInf NegInf = NaN"
| "fadd rnd NegInf PosInf = NaN"
| "fadd rnd PosInf b = PosInf"
| "fadd rnd a PosInf = PosInf"
| "fadd rnd NegInf b = NegInf"
| "fadd rnd a NegInf = NegInf"

definition fsub :: "rounding \<Rightarrow> fvalue \<Rightarrow> fvalue \<Rightarrow> fvalue" where
  "fsub rnd a b = fadd rnd a (fneg b)"

fun fsquare :: "rounding \<Rightarrow> fvalue \<Rightarrow> fvalue" where
  \<comment> \<open>\<^verbatim>\<open>x ** 2\<close>\<close>
  "fsquare rnd (Fin x) = rnd (x * x)"
| "fsquare rnd PosInf = PosInf"
| "fsquare rnd NegInf = PosInf"
| "fsquare rnd NaN = NaN"

fun fdiv :: "rounding \<Rightarrow> fvalue \<Rightarrow> fvalue \<Rightarrow> fvalue" where
  "fdiv rnd (Fin x) (Fin y) =
     (if y \<noteq> 0 then rnd (x / y)
      else if x = 0 then NaN
      else if 0 < x then PosInf else NegInf)"
| "fdiv rnd NaN b = NaN"
| "fdiv rnd a NaN = NaN"
| "fdiv rnd (Fin x) b = Fin 0"
| "fdiv rnd a (Fin y) = (if 0 \<le> y then a else fneg a)"
| "fdiv rnd a b = NaN"

fun fsqrt :: "rounding \<Rightarrow> fvalue \<Rightarrow> fvalue" where
  "fsqrt rnd (Fin x) = (if x < 0 then NaN else rnd (sqrt x))"
| "fsqrt rnd PosInf = PosInf"
| "fsqrt rnd NegInf = NaN"
| "fsqrt rnd NaN = NaN"

text \<open>The comparisons of floats: every comparison with nan is false.\<close>

fun fless :: "fvalue \<Rightarrow> fvalue \<Rightarrow> bool" where
  "fless (Fin x) (Fin y) = (x < y)"
| "fless (Fin x) PosInf = True"
| "fless NegInf (Fin y) = True"
| "fless NegInf PosInf = True"
| "fless a b = False"

fun fleq :: "fvalue \<Rightarrow> fvalue \<Rightarrow> bool" where
  "fleq (Fin x) (Fin y) = (x \<le> y)"
| "fleq (Fin x) PosInf = True"
| "fleq NegInf (Fin y) = True"
| "fleq NegInf PosInf = True"
| "fleq NegInf NegInf = True"
| "fleq PosInf PosInf = True"
| "fleq a b = False"

fun fge :: "fvalue \<Rightarrow> real \<Rightarrow> bool" where
  "fge (Fin x) c = (c \<le> x)"
| "fge PosInf c = True"
| "fge NegInf c = False"
| "fge NaN c = False"

definition fsum :: "rounding \<Rightarrow> fvalue list \<Rightarrow> fvalue" where
  \<comment> \<open>\<^verbatim>\<open>torch.sum\<close>; torch does not fix the order of the additions, here it is the index order\<close>
  "fsum rnd xs = foldl (fadd rnd) (Fin 0) xs"

definition mean :: "rounding \<Rightarrow> fvalue list \<Rightarrow> fvalue" where
  \<comment> \<open>\<^verbatim>\<open>torch.mean\<close>: the sum over the size, nan on an empty tensor\<close>
  "mean rnd xs =
     (if xs = [] then NaN else fdiv rnd (fsum rnd xs) (rnd (real (length xs))))"

definition broadcast2 :: "('a \<Rightarrow> 'b \<Rightarrow> 'c) \<Rightarrow> 'a list \<Rightarrow> 'b list \<Rightarrow> error + 'c list" where
  \<comment> \<open>an elementwise operation of two 1-D tensors: equal sizes, or one of size 1\<close>
  "broadcast2 f a b =
     (if length a = length b then Inr (map2 f a b)
      else if length a = 1 then Inr (map (f (hd a)) b)
      else if length b = 1 then Inr (map (\<lambda>x. f x (hd b)) a)
      else Inl RuntimeError)"

definition bindE :: "error + 'a \<Rightarrow> ('a \<Rightarrow> error + 'b) \<Rightarrow> error + 'b" where
  "bindE r f = (case r of Inl e \<Rightarrow> Inl e | Inr x \<Rightarrow> f x)"

section \<open>Metric engine: \<^verbatim>\<open>calculate_metrics\<close>\<close>

text \<open>
  The metrics dictionary is a Python dict: an association list in insertion order.
  The companion results dictionary is the prediction record.
\<close>

datatype metric_value = Str string | Num fvalue | IntV int

type_synonym metrics = "(string \<times> metric_value) list"

record prediction_record =
  Model :: string
  Combination :: string
  fold_id :: int
  y_pred :: "fvalue list option"
  y_true :: "fvalue list option"
  y_true_label :: "int list option"
  lc_data :: "(string \<times> real list) list option"

text \<open>
  The eight classification scores are computed by scikit-learn
  (\<^verbatim>\<open>f1_score\<close>, \<^verbatim>\<open>precision_score\<close>, \<^verbatim>\<open>recall_score\<close>, \<^verbatim>\<open>accuracy_score\<close>,
  \<^verbatim>\<open>balanced_accuracy_score\<close>), which is not part of the repository: the parameter
  \<open>sk\<close> maps the key of a score to that computation.
\<close>

type_synonym sklearn_scores = "string \<Rightarrow> int list \<Rightarrow> fvalue list \<Rightarrow> error + fvalue"

definition classification_keys :: "string list" where
  "classification_keys =
     [''mic-f1'', ''mic-p'', ''mic-r'', ''mic-acc'', ''mac-f1'', ''mac-p'', ''mac-r'', ''mac-acc'']"

fun classification_scores ::
  "sklearn_scores \<Rightarrow> int list \<Rightarrow> fvalue list \<Rightarrow> string list \<Rightarrow> error + metrics" where
  "classification_scores sk lbl pred [] = Inr []"
| "classification_scores sk lbl pred (k # ks) =
     bindE (sk k lbl pred) (\<lambda>v.
     bindE (classification_scores sk lbl pred ks) (\<lambda>rest.
       Inr ((k, Num v) # rest)))"

text \<open>
  The regression branch.  The tensor operations round to the dtype of the tensors; the
  threshold \<^verbatim>\<open>0.15\<close> is compared in that dtype; \<^verbatim>\<open>1 - (...).item()\<close> is Python's
  arithmetic.
\<close>

definition regression_metrics ::
  "floats \<Rightarrow> fvalue list \<Rightarrow> fvalue list \<Rightarrow> error + (fvalue \<times> fvalue \<times> fvalue \<times> fvalue)" where
  "regression_metrics fl yt yp =
     (let rnd = tensor_round fl in
      bindE (broadcast2 (fsub rnd) yt yp) (\<lambda>delta_z.
        let l1 = mean rnd (map fabs delta_z);
            l2 = fsqrt rnd (mean rnd (map (fsquare rnd) delta_z));
            r2 = fsub (python_round fl) (Fin 1)
                   (fdiv rnd (fsum rnd (map (fsquare rnd) delta_z))
                             (fsum rnd (map (\<lambda>t. fsquare rnd (fsub rnd t (mean rnd yt))) yt)))
        in bindE (broadcast2 (\<lambda>d t. fless (rnd 0.15) (fdiv rnd (fabs d) (fadd rnd (Fin 1) t)))
                    delta_z yt) (\<lambda>outliers.
             Inr (l1, l2, r2, mean rnd (map (\<lambda>b. if b then Fin 1 else Fin 0) outliers)))))"

definition calculate_metrics ::
  "floats \<Rightarrow> sklearn_scores \<Rightarrow> fvalue list \<Rightarrow> int list \<Rightarrow> fvalue list \<Rightarrow>
   (string \<times> real list) list option \<Rightarrow> string \<Rightarrow> string \<Rightarrow> int \<Rightarrow> string \<Rightarrow>
   error + (metrics \<times> prediction_record)" where
  "calculate_metrics fl sk yt ylbl yp lc label combination ident task =
     (let results = \<lparr> Model = label, Combination = combination, fold_id = ident,
                       y_pred = Some yp, y_true = Some yt, y_true_label = Some ylbl,
                       lc_data = lc \<rparr>
      in if task = ''regression'' then
           bindE (regression_metrics fl yt yp) (\<lambda>(l1, l2, r2, olf).
             Inr ([(''Model'', Str label), (''Combination'', Str combination),
                   (''L1'', Num l1), (''L2'', Num l2), (''R2'', Num r2), (''OLF'', Num olf),
                   (''id'', IntV ident)], results))
         else if task = ''classification'' then
           bindE (classification_scores sk ylbl yp classification_keys) (\<lambda>scores.
             Inr ([(''Model'', Str label), (''Combination'', Str combination)] @ scores @
                  [(''id'', IntV ident)], results))
         else Inl (ValueError
           ''Could not understand the task! Please set task to 'redshift' or 'classification'.''))"

definition metric_of :: "string \<Rightarrow> error + (metrics \<times> prediction_record) \<Rightarrow> metric_value option" where
  \<comment> \<open>\<^verbatim>\<open>metrics[key]\<close> of a returned pair; nothing when the call raised\<close>
  "metric_of key r = (case r of Inl e \<Rightarrow> None | Inr (m, res) \<Rightarrow> map_of m key)"

section \<open>Baseline predictors: \<^verbatim>\<open>get_linear_predictions\<close>, \<^verbatim>\<open>get_knn_predictions\<close>\<close>

text \<open>
  \<^verbatim>\<open>str.lower\<close> on the ASCII letters.  Python also lowers letters beyond ASCII; none of
  them becomes a letter of \<^verbatim>\<open>regression\<close> or \<^verbatim>\<open>classification\<close>, so the task test is
  the same.
\<close>

definition lower_char :: "char \<Rightarrow> char" where
  "lower_char c =
     (case map_of (zip ''ABCDEFGHIJKLMNOPQRSTUVWXYZ'' ''abcdefghijklmnopqrstuvwxyz'') c of
        None \<Rightarrow> c | Some d \<Rightarrow> d)"

definition lower :: "string \<Rightarrow> string" where
  "lower s = map lower_char s"

text \<open>The target tensor is 1-D or 2-D; a 1-D one gets a new axis.\<close>

datatype target = Y1 "real list" | Y2 "real list list"

fun ensure_2d :: "target \<Rightarrow> real list list" where
  "ensure_2d (Y1 ys) = map (\<lambda>y. [y]) ys"
| "ensure_2d (Y2 rows) = rows"

text \<open>
  The estimators are scikit-learn's.  \<^verbatim>\<open>Estimator().fit(X, Y)\<close> gives a fitted model or
  raises; its \<^verbatim>\<open>predict\<close> gives one row of outputs per example or raises.
\<close>

type_synonym 'x predictor = "'x list \<Rightarrow> error + real list list"

type_synonym 'x estimator = "'x list \<Rightarrow> real list list \<Rightarrow> error + 'x predictor"

record 'x sklearn =
  LinearRegression :: "'x estimator"
  LinearSVC :: "'x estimator"
  KNeighborsRegressor :: "int \<Rightarrow> 'x estimator"
  KNeighborsClassifier :: "int \<Rightarrow> 'x estimator"

definition linear_model :: "'x sklearn \<Rightarrow> 'x list \<Rightarrow> real list list \<Rightarrow> string \<Rightarrow> error + 'x predictor" where
  \<comment> \<open>the block that fits the model, or raises on the task\<close>
  "linear_model sk X Y task =
     (if lower task = ''regression'' then LinearRegression sk X Y
      else if lower task = ''classification'' then LinearSVC sk X Y
      else Inl (ValueError ''Invalid task''))"

definition knn_model ::
  "'x sklearn \<Rightarrow> int \<Rightarrow> 'x list \<Rightarrow> real list list \<Rightarrow> string \<Rightarrow> error + 'x predictor" where
  "knn_model sk k X Y task =
     (if lower task = ''regression'' then KNeighborsRegressor sk k X Y
      else if lower task = ''classification'' then KNeighborsClassifier sk k X Y
      else Inl (ValueError ''Invalid task''))"

definition get_linear_predictions ::
  "'x sklearn \<Rightarrow> 'x list \<Rightarrow> target \<Rightarrow> 'x list option \<Rightarrow> target option \<Rightarrow> string \<Rightarrow>
   error + real list" where
  "get_linear_predictions sk X Y X_val Y_val task =
     bindE (linear_model sk X (ensure_2d Y) task) (\<lambda>model.
     bindE (case (X_val, Y_val) of
              (Some xv, Some yv) \<Rightarrow> model xv
            | _ \<Rightarrow> model X) (\<lambda>predictions.
       Inr (concat predictions)))"

definition get_knn_predictions ::
  "'x sklearn \<Rightarrow> 'x list \<Rightarrow> target \<Rightarrow> 'x list option \<Rightarrow> target option \<Rightarrow> int \<Rightarrow> string \<Rightarrow>
   error + real list" where
  "get_knn_predictions sk X Y X_val Y_val k task =
     bindE (knn_model sk k X (ensure_2d Y) task) (\<lambda>model.
     bindE (case (X_val, Y_val) of
              (Some xv, Some yv) \<Rightarrow> model xv
            | _ \<Rightarrow> model X) (\<lambda>predictions.
       Inr (concat predictions)))"

section \<open>Class-conditional metrics: \<^verbatim>\<open>get_class_dependent_predictions\<close>\<close>

definition mask_select :: "'a list \<Rightarrow> bool list \<Rightarrow> error + 'a list" where
  \<comment> \<open>\<^verbatim>\<open>x[mask]\<close> with a boolean mask: the sizes must agree\<close>
  "mask_select xs msk =
     (if length xs = length msk then Inr (map fst (filter snd (zip xs msk)))
      else Inl IndexError)"

definition to_tensor :: "'a option \<Rightarrow> error + 'a" where
  \<comment> \<open>\<^verbatim>\<open>torch.tensor(None)\<close> raises\<close>
  "to_tensor v = (case v of None \<Rightarrow> Inl RuntimeError | Some x \<Rightarrow> Inr x)"

fun class_loop ::
  "floats \<Rightarrow> sklearn_scores \<Rightarrow> prediction_record \<Rightarrow> fvalue list \<Rightarrow> fvalue list \<Rightarrow> int list \<Rightarrow>
   (int \<times> string \<times> string) list \<Rightarrow> metrics list \<Rightarrow> error + metrics list" where
  "class_loop fl sk row yp yt ylbl [] results = Inr results"
| "class_loop fl sk row yp yt ylbl ((label, class_name, color) # rest) results =
     (let msk = map (\<lambda>l. l = label) ylbl in
      bindE (mask_select yp msk) (\<lambda>y_pred_class.
      bindE (mask_select yt msk) (\<lambda>y_true_class.
        if 0 < length y_pred_class \<and> 0 < length y_true_class then
          bindE (mask_select ylbl msk) (\<lambda>lbl_class.
          bindE (calculate_metrics fl sk y_true_class lbl_class y_pred_class None
                   (Model row) (Combination row) (fold_id row) ''regression'') (\<lambda>(m, _).
            class_loop fl sk row yp yt ylbl rest
              (results @ [AList.update ''class'' (Str class_name) m])))
        else class_loop fl sk row yp yt ylbl rest results)))"

fun row_loop ::
  "floats \<Rightarrow> sklearn_scores \<Rightarrow> (int \<times> string \<times> string) list \<Rightarrow> prediction_record list \<Rightarrow>
   metrics list \<Rightarrow> error + metrics list" where
  "row_loop fl sk class_names [] results = Inr results"
| "row_loop fl sk class_names (row # rows) results =
     bindE (to_tensor (y_pred row)) (\<lambda>yp.
     bindE (to_tensor (y_true row)) (\<lambda>yt.
     bindE (to_tensor (y_true_label row)) (\<lambda>ylbl.
     bindE (class_loop fl sk row yp yt ylbl class_names results) (\<lambda>results'.
       row_loop fl sk class_names rows results'))))"

definition get_class_dependent_predictions ::
  "floats \<Rightarrow> sklearn_scores \<Rightarrow> prediction_record list \<Rightarrow> (int \<times> string \<times> string) list \<Rightarrow>
   error + metrics list" where
  "get_class_dependent_predictions fl sk inputs class_names = row_loop fl sk class_names inputs []"

section \<open>Result aggregation: \<^verbatim>\<open>mergekfold_results\<close>\<close>

definition group_key :: "prediction_record \<Rightarrow> string \<times> string \<times> int" where
  "group_key r = (Model r, Combination r, fold_id r)"

definition dropna :: "'a option list \<Rightarrow> 'a list" where
  "dropna xs = List.map_filter (\<lambda>x. x) xs"

definition np_concatenate :: "'a list list \<Rightarrow> error + 'a list" where
  "np_concatenate arrays =
     (if arrays = [] then Inl (ValueError ''need at least one array to concatenate'')
      else Inr (concat arrays))"

definition dict_get :: "(string \<times> 'a) list \<Rightarrow> string \<Rightarrow> error + 'a" where
  "dict_get d key = (case map_of d key of None \<Rightarrow> Inl (KeyError key) | Some v \<Rightarrow> Inr v)"

fun mapE :: "('a \<Rightarrow> error + 'b) \<Rightarrow> 'a list \<Rightarrow> error + 'b list" where
  "mapE f [] = Inr []"
| "mapE f (x # xs) = bindE (f x) (\<lambda>y. bindE (mapE f xs) (\<lambda>ys. Inr (y # ys)))"

definition groupby :: "prediction_record list \<Rightarrow> ((string \<times> string \<times> int) \<times> prediction_record list) list" where
  \<comment> \<open>pandas \<^verbatim>\<open>groupby\<close>: the keys sorted, the rows of a group in their input order\<close>
  "groupby df =
     map (\<lambda>key. (key, filter (\<lambda>r. group_key r = key) df)) (sort (remdups (map group_key df)))"

definition concat_lc_data ::
  "prediction_record list \<Rightarrow> error + (string \<times> real list) list option" where
  "concat_lc_data grp =
     (case dropna (map lc_data grp) of
        [] \<Rightarrow> Inr None
      | d0 # ds \<Rightarrow>
          bindE (mapE (\<lambda>key. bindE (mapE (\<lambda>d. dict_get d key) (d0 # ds)) (\<lambda>arrays.
                               bindE (np_concatenate arrays) (\<lambda>a. Inr (key, a))))
                      (map fst d0))
                (\<lambda>kvs. Inr (Some kvs)))"

definition merge_group ::
  "(string \<times> string \<times> int) \<times> prediction_record list \<Rightarrow> error + prediction_record" where
  "merge_group g =
     (case g of ((model, combination, ident), grp) \<Rightarrow>
        bindE (np_concatenate (dropna (map y_pred grp))) (\<lambda>yp.
        bindE (np_concatenate (dropna (map y_true grp))) (\<lambda>yt.
        bindE (np_concatenate (dropna (map y_true_label grp))) (\<lambda>ylbl.
        bindE (concat_lc_data grp) (\<lambda>lc.
          Inr \<lparr> Model = model, Combination = combination, fold_id = ident,
                y_pred = Some yp, y_true = Some yt, y_true_label = Some ylbl,
                lc_data = lc \<rparr>)))))"

definition mergekfold_results :: "prediction_record list \<Rightarrow> error + prediction_record list" where
  \<comment> \<open>a frame built from no record has no column to group by\<close>
  "mergekfold_results results =
     (if results = [] then Inl (KeyError ''Model'')
      else mapE merge_group (groupby results))"

section \<open>Class filtering: \<^verbatim>\<open>filter_classes\<close>\<close>

text \<open>
  \<open>y\<close> is the flattened label vector.  \<^verbatim>\<open>torch.empty_like\<close> gives a tensor of the
  same size with whatever the memory holds: the parameter \<open>uninit\<close> gives that content
  by position.
\<close>

definition empty_like :: "(nat \<Rightarrow> int) \<Rightarrow> int list \<Rightarrow> int list" where
  "empty_like uninit v = map uninit [0..<length v]"

definition remap_step :: "int list \<Rightarrow> int list \<Rightarrow> nat \<times> int \<Rightarrow> int list" where
  \<comment> \<open>\<^verbatim>\<open>remapped_y[filtered_y == class_val] = i\<close>\<close>
  "remap_step filtered_y remapped_y ic =
     (case ic of (i, class_val) \<Rightarrow>
        map2 (\<lambda>fy r. if fy = class_val then int i else r) filtered_y remapped_y)"

definition filter_classes ::
  "(nat \<Rightarrow> int) \<Rightarrow> 'a list list \<Rightarrow> int list \<Rightarrow> (string \<times> 'b list) list option \<Rightarrow> int list \<Rightarrow>
   error + ('a list list \<times> int list \<times> (string \<times> 'b list) list option)" where
  "filter_classes uninit X_list y lc target_classes =
     (let msk = map (\<lambda>v. v \<in> set target_classes) y in
      bindE (mapE (\<lambda>X. mask_select X msk) X_list) (\<lambda>filtered_X_list.
      bindE (case lc of
               None \<Rightarrow> Inr None
             | Some d \<Rightarrow>
                 bindE (mapE (\<lambda>(key, v). bindE (mask_select v msk) (\<lambda>fv. Inr (key, fv))) d)
                       (\<lambda>kvs. Inr (Some kvs))) (\<lambda>filtered_lc_data.
      bindE (mask_select y msk) (\<lambda>filtered_y.
        Inr (filtered_X_list,
             foldl (remap_step filtered_y) (empty_like uninit filtered_y)
                   (enumerate 0 target_classes),
             filtered_lc_data)))))"

section \<open>Retrieval evaluation: \<^verbatim>\<open>get_ROC_data\<close>, \<^verbatim>\<open>get_AUC\<close>\<close>

text \<open>
  A 1-D tensor of floats, or the 0-d tensor that \<^verbatim>\<open>squeeze\<close> makes of a single entry.
\<close>

datatype tensor = Scalar fvalue | Vec "fvalue list"

definition vnorm :: "real list \<Rightarrow> real" where
  "vnorm v = sqrt (sum_list (map (\<lambda>x. x ^ 2) v))"

definition dot :: "real list \<Rightarrow> real list \<Rightarrow> real" where
  "dot u v = sum_list (map2 (\<lambda>x y. x * y) u v)"

definition cosine_similarity :: "real list list \<Rightarrow> real list \<Rightarrow> real \<Rightarrow> error + tensor" where
  \<comment> \<open>a vector of norm 0 is divided into nans, which the product spreads\<close>
  "cosine_similarity a b temperature =
     (if list_all (\<lambda>row. length row = length b) a then
        (let logits =
               map (\<lambda>row. if b \<noteq> [] \<and> (vnorm row = 0 \<or> vnorm b = 0) then NaN
                           else Fin (dot (map (\<lambda>x. x / vnorm row) row)
                                         (map (\<lambda>x. x / vnorm b) b) * temperature)) a
         in Inr (if length logits = 1 then Scalar (hd logits) else Vec logits))
      else Inl RuntimeError)"

text \<open>
  \<^verbatim>\<open>np.linspace(0, 1, 100)\<close>, and the size of the candidate pool at a threshold:
  \<^verbatim>\<open>int(threshold * n)\<close>.
\<close>

definition thresholds :: "real list" where
  "thresholds = map (\<lambda>i. real i / 99) [0..<100]"

definition pool_size :: "real \<Rightarrow> nat \<Rightarrow> nat" where
  "pool_size threshold n = nat \<lfloor>threshold * real n\<rfloor>"

text \<open>
  \<^verbatim>\<open>torch.argsort(cos_sim, descending=True)\<close> is the parameter \<open>argsort\<close>: torch does not
  fix the order of ties.
\<close>

definition num_right :: "nat \<Rightarrow> nat list \<Rightarrow> bool list" where
  "num_right idx idx_sorted =
     map (\<lambda>threshold. idx \<in> set (take (pool_size threshold (length idx_sorted)) idx_sorted))
         thresholds"

fun roc_loop ::
  "(fvalue list \<Rightarrow> nat list) \<Rightarrow> real list list \<Rightarrow> (nat \<times> real list) list \<Rightarrow> bool list list \<Rightarrow>
   error + bool list list" where
  "roc_loop argsort embs1 [] imgs = Inr imgs"
| "roc_loop argsort embs1 ((idx, emb_src) # rest) imgs =
     bindE (cosine_similarity embs1 emb_src 1) (\<lambda>cos_sim.
       case cos_sim of
         Scalar v \<Rightarrow> Inl TypeError
       | Vec vs \<Rightarrow> roc_loop argsort embs1 rest (imgs @ [num_right idx (argsort vs)]))"

datatype ndarray = NScalar fvalue | NArray "real list"

definition column_sums :: "bool list list \<Rightarrow> nat list" where
  \<comment> \<open>\<^verbatim>\<open>np.sum(imgs, axis=0)\<close> of rows of 100 booleans\<close>
  "column_sums imgs =
     map (\<lambda>j. length (filter (\<lambda>row. row ! j) imgs)) [0..<length thresholds]"

definition get_ROC_data ::
  "(fvalue list \<Rightarrow> nat list) \<Rightarrow> real list list \<Rightarrow> real list list \<Rightarrow> error + (real list \<times> ndarray)" where
  "get_ROC_data argsort embs1 embs2 =
     bindE (roc_loop argsort embs1 (enumerate 0 embs2) []) (\<lambda>imgs.
       Inr (thresholds,
            if imgs = [] then NScalar NaN
            else NArray (map (\<lambda>c. real c / real (length embs2)) (column_sums imgs))))"

fun trapz :: "real list \<Rightarrow> real list \<Rightarrow> real" where
  "trapz (y0 # y1 # ys) (x0 # x1 # xs) = (x1 - x0) * (y1 + y0) / 2 + trapz (y1 # ys) (x1 # xs)"
| "trapz ys xs = 0"

definition np_trapz :: "ndarray \<Rightarrow> real list \<Rightarrow> error + real" where
  "np_trapz y x =
     (case y of
        NScalar v \<Rightarrow> Inl IndexError
      | NArray ys \<Rightarrow>
          if length ys = length x then Inr (trapz ys x)
          else Inl (ValueError ''operands could not be broadcast together''))"

definition get_AUC ::
  "(fvalue list \<Rightarrow> nat list) \<Rightarrow> real list list \<Rightarrow> real list list \<Rightarrow> error + real" where
  "get_AUC argsort embs1 embs2 =
     bindE (get_ROC_data argsort embs1 embs2) (\<lambda>(ths, fraction_correct).
       np_trapz fraction_correct ths)"

text \<open>
  One ranking torch may return, for the concrete runs below: the indices by descending
  value, nan first, ties in index order.
\<close>

fun fkey :: "fvalue \<Rightarrow> nat \<times> real" where
  "fkey NegInf = (0, 0)"
| "fkey (Fin x) = (1, x)"
| "fkey PosInf = (2, 0)"
| "fkey NaN = (3, 0)"

fun insert_desc :: "fvalue list \<Rightarrow> nat \<Rightarrow> nat list \<Rightarrow> nat list" where
  "insert_desc v i [] = [i]"
| "insert_desc v i (j # js) =
     (if fkey (v ! j) < fkey (v ! i) then i # j # js else j # insert_desc v i js)"

definition argsort_desc :: "fvalue list \<Rightarrow> nat list" where
  "argsort_desc v = foldl (\<lambda>acc i. insert_desc v i acc) [] [0..<length v]"

section \<open>Training monitor: \<^verbatim>\<open>LossTrackingCallback\<close>\<close>

record loss_tracking_callback =
  train_loss_history :: "real list"
  val_loss_history :: "real list"
  epoch_train_loss :: "real list"
  auc_val_history :: "real list"
  R2_val_history :: "real option list"
  R2_train_history :: "real option list"

text \<open>
  \<^verbatim>\<open>trainer.callback_metrics\<close> maps a name to a scalar tensor; \<^verbatim>\<open>.get\<close> gives
  \<^verbatim>\<open>None\<close> for a missing name.  A callback returns the monitor as the call leaves it,
  and the exception if it raised.
\<close>

type_synonym callback_metrics = "string \<rightharpoonup> real"

definition init_callback :: loss_tracking_callback where
  "init_callback =
     \<lparr> train_loss_history = [], val_loss_history = [], epoch_train_loss = [],
       auc_val_history = [], R2_val_history = [], R2_train_history = [] \<rparr>"

definition on_train_batch_end :: "loss_tracking_callback \<Rightarrow> real \<Rightarrow> error option \<times> loss_tracking_callback" where
  "on_train_batch_end self loss =
     (None, self\<lparr> epoch_train_loss := epoch_train_loss self @ [loss] \<rparr>)"

definition on_train_epoch_end ::
  "loss_tracking_callback \<Rightarrow> callback_metrics \<Rightarrow> error option \<times> loss_tracking_callback" where
  "on_train_epoch_end self cm =
     (if epoch_train_loss self = [] then (Some ZeroDivisionError, self)
      else
        (None, self\<lparr> train_loss_history :=
                        train_loss_history self @
                          [sum_list (epoch_train_loss self) / real (length (epoch_train_loss self))],
                      R2_train_history := R2_train_history self @ [cm ''R2_train''],
                      epoch_train_loss := [] \<rparr>))"

definition on_validation_epoch_end ::
  "loss_tracking_callback \<Rightarrow> callback_metrics \<Rightarrow> error option \<times> loss_tracking_callback" where
  "on_validation_epoch_end self cm =
     (case cm ''val_loss'' of
        None \<Rightarrow> (None, self)
      | Some val_loss \<Rightarrow> (None, self\<lparr> val_loss_history := val_loss_history self @ [val_loss] \<rparr>))"

definition truthy :: "real option \<Rightarrow> bool" where
  \<comment> \<open>the truth value of \<^verbatim>\<open>None\<close> or of a scalar tensor\<close>
  "truthy v = (case v of None \<Rightarrow> False | Some x \<Rightarrow> x \<noteq> 0)"

definition on_validation_end ::
  "loss_tracking_callback \<Rightarrow> callback_metrics \<Rightarrow> error option \<times> loss_tracking_callback" where
  "on_validation_end self cm =
     (let auc_val = cm ''AUC_val'';
          auc_val1 = cm ''AUC_val1'';
          self1 = self\<lparr> R2_val_history := R2_val_history self @ [cm ''R2_val''] \<rparr>
      in if truthy auc_val \<or> truthy auc_val1 then
           (case auc_val of
              None \<Rightarrow>
                (case cm ''AUC_val1'' of
                   None \<Rightarrow> (Some AttributeError, self1)
                 | Some a1 \<Rightarrow>
                (case cm ''AUC_val2'' of
                   None \<Rightarrow> (Some AttributeError, self1)
                 | Some a2 \<Rightarrow>
                (case cm ''AUC_val3'' of
                   None \<Rightarrow> (Some AttributeError, self1)
                 | Some a3 \<Rightarrow>
                     (None, self1\<lparr> auc_val_history :=
                                     auc_val_history self1 @ [(0 + a1 + a2 + a3) / 3] \<rparr>))))
            | Some v \<Rightarrow> (None, self1\<lparr> auc_val_history := auc_val_history self1 @ [v] \<rparr>))
         else (None, self1))"

datatype event =
    TrainBatchEnd real
  | TrainEpochEnd callback_metrics
  | ValidationEpochEnd callback_metrics
  | ValidationEnd callback_metrics

fun callback :: "loss_tracking_callback \<Rightarrow> event \<Rightarrow> error option \<times> loss_tracking_callback" where
  "callback self (TrainBatchEnd loss) = on_train_batch_end self loss"
| "callback self (TrainEpochEnd cm) = on_train_epoch_end self cm"
| "callback self (ValidationEpochEnd cm) = on_validation_epoch_end self cm"
| "callback self (ValidationEnd cm) = on_validation_end self cm"

fun run_callbacks :: "loss_tracking_callback \<Rightarrow> event list \<Rightarrow> error option \<times> loss_tracking_callback" where
  \<comment> \<open>the trainer calls the monitor at each lifecycle point; an exception ends the run\<close>
  "run_callbacks self [] = (None, self)"
| "run_callbacks self (e # es) =
     (case callback self e of
        (Some err, self') \<Rightarrow> (Some err, self')
      | (None, self') \<Rightarrow> run_callbacks self' es)"

section \<open>Library instances for concrete runs\<close>

text \<open>
  The regression branch calls no scikit-learn score; an estimator that predicts the mean
  of the first target column for every example stands for a fitted model.
\<close>

definition no_scores :: sklearn_scores where
  "no_scores key lbl pred = Inl RuntimeError"

definition mean_estimator :: "real list estimator" where
  "mean_estimator X Y =
     (if Y = [] then Inl (ValueError ''Found array with 0 sample(s)'')
      else Inr (\<lambda>xs. Inr (map (\<lambda>x. [sum_list (map hd Y) / real (length Y)]) xs)))"

definition mean_sklearn :: "real list sklearn" where
  "mean_sklearn =
     \<lparr> LinearRegression = mean_estimator, LinearSVC = mean_estimator,
       KNeighborsRegressor = (\<lambda>k. mean_estimator),
       KNeighborsClassifier = (\<lambda>k. mean_estimator) \<rparr>"

section \<open>Roundings\<close>

text \<open>
  What rounding to nearest gives in a binary float format, for the sizes \<open>n\<close> whose
  counts the format holds exactly (up to \<open>2 ^ 24\<close> in float32, \<open>2 ^ 53\<close> in float64): a
  rounded result is never nan, rounding is monotone, and the integers up to \<open>n\<close> are
  not changed.
\<close>

definition rounding_ok :: "rounding \<Rightarrow> nat \<Rightarrow> bool" where
  "rounding_ok rnd n =
     ((\<forall>x. rnd x \<noteq> NaN)
      \<and> (\<forall>x y. x \<le> y \<longrightarrow> fleq (rnd x) (rnd y))
      \<and> (\<forall>k \<le> n. rnd (real k) = Fin (real k)))"

text \<open>Exact arithmetic, and the range of float32 with the mantissa left exact.\<close>

definition exact_floats :: floats where
  "exact_floats = \<lparr> tensor_round = Fin, python_round = Fin \<rparr>"

definition float32_max :: real where
  "float32_max = (2 - 1 / 2 ^ 23) * 2 ^ 127"

definition float32_range :: rounding where
  "float32_range x =
     (if float32_max < x then PosInf else if x < - float32_max then NegInf else Fin x)"

definition float32_floats :: floats where
  "float32_floats = \<lparr> tensor_round = float32_range, python_round = Fin \<rparr>"

text \<open>A rounding that does not change the values listed in \<open>S\<close>.\<close>

definition exact_on :: "rounding \<Rightarrow> real list \<Rightarrow> bool" where
  "exact_on rnd S = list_all (\<lambda>x. rnd x = Fin x) S"

section \<open>Well-formed prediction records\<close>

definition wf_record :: "prediction_record \<Rightarrow> bool" where
  \<comment> \<open>the invariant of a prediction record: the three arrays are there, of one length\<close>
  "wf_record r =
     (case (y_pred r, y_true r, y_true_label r) of
        (Some yp, Some yt, Some yl) \<Rightarrow> length yp = length yl \<and> length yt = length yl
      | _ \<Rightarrow> False)"

definition tag :: "metrics \<Rightarrow> metric_value option \<times> metric_value option \<times> metric_value option \<times> metric_value option" where
  \<comment> \<open>the identifying keys of a metrics dictionary\<close>
  "tag m = (map_of m ''Model'', map_of m ''Combination'', map_of m ''id'', map_of m ''class'')"

definition members :: "prediction_record \<Rightarrow> int \<Rightarrow> nat" where
  \<comment> \<open>the size of the partition of a record by a true class label\<close>
  "members r label = (case y_true_label r of None \<Rightarrow> 0 | Some yl \<Rightarrow> length (filter (\<lambda>l. l = label) yl))"

definition class_tag :: "prediction_record \<Rightarrow> int \<times> string \<times> string \<Rightarrow>
  metric_value option \<times> metric_value option \<times> metric_value option \<times> metric_value option" where
  \<comment> \<open>the identifying keys expected for a record and an entry of the class-name map\<close>
  "class_tag row c = (case c of (label, class_name, color) \<Rightarrow>
     (Some (Str (Model row)), Some (Str (Combination row)), Some (IntV (fold_id row)),
      Some (Str class_name)))"

text \<open>A record of three examples, none of class 1, and a map of three classes.\<close>

definition run_input :: "prediction_record list" where
  "run_input = [\<lparr> Model = ''knn'', Combination = ''spectral'', fold_id = 0,
       y_pred = Some [Fin 1, Fin 2, Fin 3], y_true = Some [Fin 1, Fin 2, Fin 4], y_true_label = Some [0, 0, 2],
       lc_data = None \<rparr>]"

definition run_classes :: "(int \<times> string \<times> string) list" where
  "run_classes = [(0, ''SN Ia'', ''blue''), (1, ''SN II'', ''red''), (2, ''SLSN'', ''green'')]"

text \<open>
  The examples of a record whose true label is a class, and the dictionary the
  class-conditional computation owes for a record and an entry of the class-name map:
  the metrics of \<^verbatim>\<open>calculate_metrics\<close> on that partition, with the class name added.
\<close>

definition class_partition :: "'a list option \<Rightarrow> int list option \<Rightarrow> int \<Rightarrow> 'a list" where
  "class_partition xs ylbl label =
     (case (xs, ylbl) of
        (Some v, Some yl) \<Rightarrow> map fst (filter (\<lambda>(x, l). l = label) (zip v yl))
      | _ \<Rightarrow> [])"

definition class_entry ::
  "floats \<Rightarrow> sklearn_scores \<Rightarrow> prediction_record \<Rightarrow> int \<times> string \<times> string \<Rightarrow> error + metrics" where
  "class_entry fl sk row c =
     (case c of (label, class_name, color) \<Rightarrow>
        bindE (calculate_metrics fl sk
                 (class_partition (y_true row) (y_true_label row) label)
                 (class_partition (y_true_label row) (y_true_label row) label)
                 (class_partition (y_pred row) (y_true_label row) label)
                 None (Model row) (Combination row) (fold_id row) ''regression'')
              (\<lambda>(m, res). Inr (AList.update ''class'' (Str class_name) m)))"

definition metric_keys :: "string list" where
  "metric_keys = [''Model'', ''Combination'', ''L1'', ''L2'', ''R2'', ''OLF'', ''id'', ''class'']"

text \<open>Memory that holds 42 everywhere, for a run of \<^verbatim>\<open>filter_classes\<close>.\<close>

definition stale_memory :: "nat \<Rightarrow> int" where
  "stale_memory i = 42"

section \<open>Groups of records\<close>

definition group_of :: "prediction_record list \<Rightarrow> prediction_record \<Rightarrow> prediction_record list" where
  "group_of results row = filter (\<lambda>r. group_key r = group_key row) results"

definition complete_records :: "prediction_record list \<Rightarrow> bool" where
  "complete_records results =
     (results \<noteq> []
      \<and> list_all (\<lambda>r. y_pred r \<noteq> None \<and> y_true r \<noteq> None \<and> y_true_label r \<noteq> None) results
      \<and> list_all (\<lambda>r. list_all (\<lambda>r'.
            case (lc_data r, lc_data r') of
              (Some d, Some d') \<Rightarrow> list_all (\<lambda>key. map_of d' key \<noteq> None) (map fst d)
            | _ \<Rightarrow> True) results) results)"

text \<open>Three records of two groups, and the table they merge into.\<close>

definition run_records :: "prediction_record list" where
  "run_records =
     [\<lparr> Model = ''knn'', Combination = ''spectral'', fold_id = 1,
        y_pred = Some [Fin 1, Fin 2], y_true = Some [Fin 1, Fin 3], y_true_label = Some [0, 1], lc_data = None \<rparr>,
      \<lparr> Model = ''knn'', Combination = ''meta'', fold_id = 0,
        y_pred = Some [Fin 9], y_true = Some [Fin 8], y_true_label = Some [2], lc_data = None \<rparr>,
      \<lparr> Model = ''knn'', Combination = ''spectral'', fold_id = 1,
        y_pred = Some [Fin 4, Fin 5, Fin 6], y_true = Some [Fin 4, Fin 4, Fin 4], y_true_label = Some [1, 1, 0],
        lc_data = None \<rparr>]"

definition run_table :: "prediction_record list" where
  "run_table =
     [\<lparr> Model = ''knn'', Combination = ''meta'', fold_id = 0,
        y_pred = Some [Fin 9], y_true = Some [Fin 8], y_true_label = Some [2], lc_data = None \<rparr>,
      \<lparr> Model = ''knn'', Combination = ''spectral'', fold_id = 1,
        y_pred = Some [Fin 1, Fin 2, Fin 4, Fin 5, Fin 6], y_true = Some [Fin 1, Fin 3, Fin 4, Fin 4, Fin 4],
        y_true_label = Some [0, 1, 1, 1, 0], lc_data = None \<rparr>]"

section \<open>Rankings and curves\<close>

text \<open>
  What every ranking returned by \<^verbatim>\<open>torch.argsort\<close> satisfies: it is a permutation of the
  indices of its argument.
\<close>

definition argsort_ok :: "(fvalue list \<Rightarrow> nat list) \<Rightarrow> bool" where
  "argsort_ok argsort =
     (\<forall>vs. length (argsort vs) = length vs \<and> set (argsort vs) = {..<length vs})"

text \<open>Every vector of the first set has the dimension of every query.\<close>

definition same_dimension :: "real list list \<Rightarrow> real list list \<Rightarrow> bool" where
  "same_dimension embs1 embs2 =
     list_all (\<lambda>q. list_all (\<lambda>row. length row = length q) embs1) embs2"

text \<open>The fraction-correct at the last threshold of a returned curve.\<close>

definition final_fraction :: "error + (real list \<times> ndarray) \<Rightarrow> real option" where
  "final_fraction r = (case r of Inr (ths, NArray fc) \<Rightarrow> Some (last fc) | _ \<Rightarrow> None)"

text \<open>A row of \<^verbatim>\<open>imgs\<close>: the hits of a query against some permutation of the candidates.\<close>

definition ranked_row :: "nat \<Rightarrow> nat \<times> real list \<Rightarrow> bool list \<Rightarrow> bool" where
  "ranked_row n iq row =
     (\<exists>p. length p = n \<and> set p = {..<n} \<and> row = num_right (fst iq) p)"

section \<open>Properties of the metric engine\<close>

lemma bindE_Inr [simp]: "bindE (Inr x) f = f x"
  by (simp add: bindE_def)

lemma bindE_Inl [simp]: "bindE (Inl e) f = Inl e"
  by (simp add: bindE_def)

lemma broadcast2_same: "length a = length b \<Longrightarrow> broadcast2 f a b = Inr (map2 f a b)"
  by (simp add: broadcast2_def)

lemma rounding_nat: "rounding_ok rnd n \<Longrightarrow> k \<le> n \<Longrightarrow> rnd (real k) = Fin (real k)"
  by (simp add: rounding_ok_def)

lemma rounding_nonneg:
  assumes "rounding_ok rnd n" and "0 \<le> x"
  shows "fge (rnd x) 0"
proof -
  have z: "rnd 0 = Fin 0" using rounding_nat [OF assms(1), of 0] by simp
  have "fleq (rnd 0) (rnd x)" using assms by (simp add: rounding_ok_def)
  moreover have "rnd x \<noteq> NaN" using assms(1) by (simp add: rounding_ok_def)
  ultimately show ?thesis unfolding z by (cases "rnd x") simp_all
qed

lemma rounding_unit:
  assumes "rounding_ok rnd n" and "0 < n" and "0 \<le> x" and "x \<le> 1"
  shows "\<exists>y. rnd x = Fin y \<and> 0 \<le> y \<and> y \<le> 1"
proof -
  have z: "rnd 0 = Fin 0" using rounding_nat [OF assms(1), of 0] by simp
  have o: "rnd 1 = Fin 1" using rounding_nat [OF assms(1), of 1] assms(2) by simp
  have "fleq (rnd 0) (rnd x)" "fleq (rnd x) (rnd 1)"
    using assms by (simp_all add: rounding_ok_def)
  then show ?thesis unfolding z o by (cases "rnd x") simp_all
qed

lemma fadd_nonneg:
  "rounding_ok rnd n \<Longrightarrow> fge a 0 \<Longrightarrow> fge b 0 \<Longrightarrow> fge (fadd rnd a b) 0"
  by (cases a; cases b) (simp_all add: rounding_nonneg)

lemma foldl_fadd_nonneg:
  "rounding_ok rnd n \<Longrightarrow> fge acc 0 \<Longrightarrow> list_all (\<lambda>v. fge v 0) xs \<Longrightarrow>
   fge (foldl (fadd rnd) acc xs) 0"
  by (induction xs arbitrary: acc) (simp_all add: fadd_nonneg)

lemma mean_nonneg:
  assumes ok: "rounding_ok rnd n" and ne: "xs \<noteq> []" and le: "length xs \<le> n"
    and nn: "list_all (\<lambda>v. fge v 0) xs"
  shows "fge (mean rnd xs) 0"
proof -
  have s: "fge (fsum rnd xs) 0"
    unfolding fsum_def by (rule foldl_fadd_nonneg [OF ok _ nn]) simp
  have l: "rnd (real (length xs)) = Fin (real (length xs))"
    by (rule rounding_nat [OF ok le])
  have pos: "0 < real (length xs)" using ne by simp
  show ?thesis
  proof (cases "fsum rnd xs")
    case (Fin x)
    then have "0 \<le> x / real (length xs)" using s pos by simp
    then have "fge (rnd (x / real (length xs))) 0" by (rule rounding_nonneg [OF ok])
    then show ?thesis using ne pos by (simp add: mean_def l Fin)
  next
    case PosInf
    then show ?thesis using ne by (simp add: mean_def l)
  next
    case NegInf
    then show ?thesis using s by simp
  next
    case NaN
    then show ?thesis using s by simp
  qed
qed

lemma fsqrt_nonneg: "rounding_ok rnd n \<Longrightarrow> fge v 0 \<Longrightarrow> fge (fsqrt rnd v) 0"
  by (cases v) (simp_all add: rounding_nonneg)

lemma fabs_nonneg: "v \<noteq> NaN \<Longrightarrow> fge (fabs v) 0"
  by (cases v) simp_all

lemma fsquare_nonneg: "rounding_ok rnd n \<Longrightarrow> v \<noteq> NaN \<Longrightarrow> fge (fsquare rnd v) 0"
  by (cases v) (simp_all add: rounding_nonneg)

lemma fsub_not_nan: "rounding_ok rnd n \<Longrightarrow> is_finite a \<Longrightarrow> is_finite b \<Longrightarrow> fsub rnd a b \<noteq> NaN"
  by (cases a; cases b) (simp_all add: fsub_def rounding_ok_def)

lemma indicator_sum:
  assumes ok: "rounding_ok rnd n"
  shows "k + length bs \<le> n \<Longrightarrow>
         foldl (fadd rnd) (Fin (real k)) (map (\<lambda>b. if b then Fin 1 else Fin 0) bs)
           = Fin (real (k + length (filter (\<lambda>b. b) bs)))"
proof (induction bs arbitrary: k)
  case Nil
  then show ?case by simp
next
  case (Cons b bs)
  show ?case
  proof (cases b)
    case True
    have "rnd (real (Suc k)) = Fin (real (Suc k))"
      by (rule rounding_nat [OF ok]) (use Cons.prems in simp)
    then have step: "rnd (real k + 1) = Fin (1 + real k)"
      by (simp add: add.commute)
    from Cons.IH [of "Suc k"] Cons.prems show ?thesis
      using True by (simp add: step)
  next
    case False
    have step: "rnd (real k) = Fin (real k)"
      by (rule rounding_nat [OF ok]) (use Cons.prems in simp)
    from Cons.IH [of k] Cons.prems show ?thesis
      using False by (simp add: step)
  qed
qed

lemma indicator_mean:
  assumes ok: "rounding_ok rnd n" and ne: "bs \<noteq> []" and le: "length bs \<le> n"
  shows "\<exists>olf. mean rnd (map (\<lambda>b. if b then Fin 1 else Fin 0) bs) = Fin olf \<and> 0 \<le> olf \<and> olf \<le> 1"
proof -
  define c where "c = length (filter (\<lambda>b. b) bs)"
  have cle: "c \<le> length bs" by (simp add: c_def)
  have s: "fsum rnd (map (\<lambda>b. if b then Fin 1 else Fin 0) bs) = Fin (real c)"
    unfolding fsum_def c_def using indicator_sum [OF ok, of 0 bs] le by simp
  have l: "rnd (real (length bs)) = Fin (real (length bs))"
    by (rule rounding_nat [OF ok le])
  have pos: "0 < real (length bs)" using ne by simp
  have m: "mean rnd (map (\<lambda>b. if b then Fin 1 else Fin 0) bs) = rnd (real c / real (length bs))"
    using ne pos by (simp add: mean_def s l)
  have n0: "0 < n" using ne le by (cases bs) auto
  have "0 \<le> real c / real (length bs)" "real c / real (length bs) \<le> 1"
    using cle pos by simp_all
  then show ?thesis unfolding m by (rule rounding_unit [OF ok n0])
qed

lemma regression_metrics_bounds:
  assumes len: "length yt = length yp" and ne: "yt \<noteq> []"
    and ft: "list_all is_finite yt" and fp: "list_all is_finite yp"
    and ok: "rounding_ok (tensor_round fl) (length yt)"
  shows "\<exists>l1 l2 r2 olf. regression_metrics fl yt yp = Inr (l1, l2, r2, Fin olf)
           \<and> fge l1 0 \<and> fge l2 0 \<and> 0 \<le> olf \<and> olf \<le> 1"
proof -
  define rnd where "rnd = tensor_round fl"
  note ok' = ok [folded rnd_def]
  define dz where "dz = map2 (fsub rnd) yt yp"
  have dzlen: "length dz = length yt" using len by (simp add: dz_def)
  have dzne: "dz \<noteq> []" using dzlen ne by auto
  have b1: "broadcast2 (fsub rnd) yt yp = Inr dz"
    using len by (simp add: broadcast2_same dz_def)
  define outl where
    "outl = map2 (\<lambda>d t. fless (rnd 0.15) (fdiv rnd (fabs d) (fadd rnd (Fin 1) t))) dz yt"
  have b2: "broadcast2 (\<lambda>d t. fless (rnd 0.15) (fdiv rnd (fabs d) (fadd rnd (Fin 1) t))) dz yt
              = Inr outl"
    using dzlen by (simp add: broadcast2_same outl_def)
  have outlen: "length outl = length yt" using dzlen by (simp add: outl_def)
  have outne: "outl \<noteq> []" using outlen ne by auto
  have nan: "v \<noteq> NaN" if "v \<in> set dz" for v
  proof -
    from that obtain t p where "(t, p) \<in> set (zip yt yp)" and v: "v = fsub rnd t p"
      by (auto simp: dz_def)
    then have "t \<in> set yt" "p \<in> set yp" by (auto dest: set_zip_leftD set_zip_rightD)
    then have "is_finite t" "is_finite p" using ft fp by (auto simp: list_all_iff)
    then show ?thesis unfolding v by (rule fsub_not_nan [OF ok'])
  qed
  have l1: "fge (mean rnd (map fabs dz)) 0"
    by (rule mean_nonneg [OF ok']) (use dzne dzlen nan in \<open>auto simp: list_all_iff fabs_nonneg\<close>)
  have "fge (mean rnd (map (fsquare rnd) dz)) 0"
    by (rule mean_nonneg [OF ok'])
      (use dzne dzlen nan ok' in \<open>auto simp: list_all_iff fsquare_nonneg\<close>)
  then have l2: "fge (fsqrt rnd (mean rnd (map (fsquare rnd) dz))) 0"
    by (rule fsqrt_nonneg [OF ok'])
  have "\<exists>olf. mean rnd (map (\<lambda>b. if b then Fin 1 else Fin 0) outl) = Fin olf \<and> 0 \<le> olf \<and> olf \<le> 1"
    by (rule indicator_mean [OF ok' outne]) (simp add: outlen)
  then obtain olf where olf: "mean rnd (map (\<lambda>b. if b then Fin 1 else Fin 0) outl) = Fin olf"
    "0 \<le> olf" "olf \<le> 1"
    by blast
  show ?thesis
    unfolding regression_metrics_def Let_def rnd_def [symmetric] b1 bindE_Inr b2 olf(1)
    using l1 l2 olf(2,3) by simp
qed

lemma float32_range_ok: "real n \<le> float32_max \<Longrightarrow> rounding_ok float32_range n"
proof -
  assume n: "real n \<le> float32_max"
  have pos: "0 \<le> float32_max" by (simp add: float32_max_def)
  have a: "float32_range x \<noteq> NaN" for x by (simp add: float32_range_def)
  have b: "fleq (float32_range x) (float32_range y)" if "x \<le> y" for x y
    using that pos by (simp add: float32_range_def)
  have c: "float32_range (real k) = Fin (real k)" if "k \<le> n" for k
  proof -
    have "real k \<le> float32_max" using that n by simp
    moreover have "- float32_max \<le> real k" using pos by simp
    ultimately show ?thesis by (simp add: float32_range_def)
  qed
  show ?thesis unfolding rounding_ok_def using a b c by blast
qed

lemma not_fless_zero: "fge v 0 \<Longrightarrow> \<not> fless v (Fin 0)"
  by (cases v) simp_all

text \<open>
  Claim C6.  \<^verbatim>\<open>calculate_metrics\<close> with task \<^verbatim>\<open>regression\<close>, true values [1,2,3,4] and
  the same predicted values returns the metrics dictionary with L1 = 0, L2 = 0, R2 = 1
  and OLF = 0, whatever the labels, the auxiliary data and the identifying keys are, in
  every float format that holds the intermediate values of this computation (multiples
  of 1/4 of at most 10 in size, as every binary format does) and rounds 0.15 to
  something not negative.
\<close>

theorem calculate_metrics_perfect_regression:
  assumes "exact_on (tensor_round fl)
             [0, 1, 2, 3, 4, 5, 6, 10, 5 / 2, - (3 / 2), - (1 / 2), 1 / 2, 3 / 2, 9 / 4, 1 / 4, 11 / 4]"
    and "fge (tensor_round fl 0.15) 0"
    and "python_round fl 1 = Fin 1"
  shows "calculate_metrics fl sk [Fin 1, Fin 2, Fin 3, Fin 4] ylbl [Fin 1, Fin 2, Fin 3, Fin 4]
           lc label comb ident ''regression'' =
     Inr ([(''Model'', Str label), (''Combination'', Str comb),
           (''L1'', Num (Fin 0)), (''L2'', Num (Fin 0)), (''R2'', Num (Fin 1)),
           (''OLF'', Num (Fin 0)), (''id'', IntV ident)],
          \<lparr> Model = label, Combination = comb, fold_id = ident,
            y_pred = Some [Fin 1, Fin 2, Fin 3, Fin 4], y_true = Some [Fin 1, Fin 2, Fin 3, Fin 4],
            y_true_label = Some ylbl, lc_data = lc \<rparr>)"
proof -
  have nl: "\<not> fless (tensor_round fl (3 / 20)) (Fin 0)"
    using assms(2) by (simp add: not_fless_zero)
  show ?thesis
    using assms(1,3) nl
    by (simp add: exact_on_def calculate_metrics_def regression_metrics_def broadcast2_def
        mean_def fsum_def fsub_def)
qed

text \<open>Claim C6 in exact arithmetic, for a record of four labels.\<close>

theorem calculate_metrics_perfect_regression_witness:
  "calculate_metrics exact_floats no_scores [Fin 1, Fin 2, Fin 3, Fin 4] [0, 1, 1, 0]
       [Fin 1, Fin 2, Fin 3, Fin 4] None ''knn'' ''spectral'' 0 ''regression'' =
     Inr ([(''Model'', Str ''knn''), (''Combination'', Str ''spectral''),
           (''L1'', Num (Fin 0)), (''L2'', Num (Fin 0)), (''R2'', Num (Fin 1)),
           (''OLF'', Num (Fin 0)), (''id'', IntV 0)],
          \<lparr> Model = ''knn'', Combination = ''spectral'', fold_id = 0,
            y_pred = Some [Fin 1, Fin 2, Fin 3, Fin 4], y_true = Some [Fin 1, Fin 2, Fin 3, Fin 4],
            y_true_label = Some [0, 1, 1, 0], lc_data = None \<rparr>)"
  using calculate_metrics_perfect_regression
    [of exact_floats no_scores "[0, 1, 1, 0]" None "''knn''" "''spectral''" 0]
  by (simp add: exact_floats_def exact_on_def)

text \<open>
  Claim C8, as stated, fails on empty vectors: they have the same length, and the mean
  of an empty tensor is nan, which is not \<open>\<ge> 0\<close>.
\<close>

theorem regression_metrics_empty_is_nan:
  "metric_of ''L1'' (calculate_metrics float32_floats no_scores [] [] [] None ''m'' ''c'' 0 ''regression'')
     = Some (Num NaN) \<and> \<not> fge NaN 0"
  by (simp add: metric_of_def calculate_metrics_def regression_metrics_def broadcast2_def
      mean_def Let_def)

text \<open>
  It fails as well on a vector that holds nan, and the finite vectors
  \<open>[2\<^sup>1\<^sup>2\<^sup>7]\<close> and \<open>[-2\<^sup>1\<^sup>2\<^sup>7]\<close> overflow float32: L1 and L2 are then \<open>+\<infinity>\<close>.
\<close>

lemma regression_metrics_nan_entry:
  "metric_of ''L1'' (calculate_metrics float32_floats no_scores [NaN] [0] [Fin 1] None ''m'' ''c'' 0
     ''regression'') = Some (Num NaN)"
  by (simp add: metric_of_def calculate_metrics_def regression_metrics_def broadcast2_def
      mean_def fsum_def fsub_def float32_floats_def float32_range_def float32_max_def)

lemma regression_metrics_overflow:
  "metric_of ''L1'' (calculate_metrics float32_floats no_scores [Fin (2 ^ 127)] [0]
     [Fin (- (2 ^ 127))] None ''m'' ''c'' 0 ''regression'') = Some (Num PosInf)
   \<and> metric_of ''L2'' (calculate_metrics float32_floats no_scores [Fin (2 ^ 127)] [0]
     [Fin (- (2 ^ 127))] None ''m'' ''c'' 0 ''regression'') = Some (Num PosInf)"
  by (simp add: metric_of_def calculate_metrics_def regression_metrics_def broadcast2_def
      mean_def fsum_def fsub_def float32_floats_def float32_range_def float32_max_def)

text \<open>
  Claim C8, amended.  For all non-empty true and predicted regression vectors of the same
  length whose entries are finite, in a float format whose rounding gives no nan, is
  monotone and holds the integers up to the length, \<^verbatim>\<open>calculate_metrics\<close> returns with
  \<open>L1 \<ge> 0\<close> and \<open>L2 \<ge> 0\<close>, each a finite number or \<open>+\<infinity>\<close> when the computation overflows,
  and with a finite OLF, \<open>0 \<le> OLF \<le> 1\<close>.
\<close>

theorem regression_metrics_nonneg_bounded:
  assumes "length yt = length yp" and "yt \<noteq> []"
    and "list_all is_finite yt" and "list_all is_finite yp"
    and "rounding_ok (tensor_round fl) (length yt)"
  shows "\<exists>l1 l2 olf.
           metric_of ''L1'' (calculate_metrics fl sk yt ylbl yp lc label comb ident ''regression'')
             = Some (Num l1)
         \<and> metric_of ''L2'' (calculate_metrics fl sk yt ylbl yp lc label comb ident ''regression'')
             = Some (Num l2)
         \<and> metric_of ''OLF'' (calculate_metrics fl sk yt ylbl yp lc label comb ident ''regression'')
             = Some (Num (Fin olf))
         \<and> fge l1 0 \<and> fge l2 0 \<and> 0 \<le> olf \<and> olf \<le> 1"
proof -
  obtain l1 l2 r2 olf where r: "regression_metrics fl yt yp = Inr (l1, l2, r2, Fin olf)"
    and b: "fge l1 0" "fge l2 0" "0 \<le> olf" "olf \<le> 1"
    using regression_metrics_bounds [OF assms] by blast
  show ?thesis using b by (simp add: calculate_metrics_def r metric_of_def)
qed

text \<open>
  The amended claim C8 in the range of float32, at the vectors \<open>[2\<^sup>1\<^sup>2\<^sup>7, 1]\<close> and
  \<open>[-2\<^sup>1\<^sup>2\<^sup>7, 3]\<close>: L1 and L2 overflow to \<open>+\<infinity>\<close>, and both examples are outliers.
\<close>

theorem regression_metrics_nonneg_bounded_witness:
  "list_all is_finite [Fin (2 ^ 127), Fin 1] \<and> list_all is_finite [Fin (- (2 ^ 127)), Fin 3]
   \<and> metric_of ''L1'' (calculate_metrics float32_floats no_scores [Fin (2 ^ 127), Fin 1] [0, 1]
        [Fin (- (2 ^ 127)), Fin 3] None ''m'' ''c'' 0 ''regression'') = Some (Num PosInf)
   \<and> metric_of ''L2'' (calculate_metrics float32_floats no_scores [Fin (2 ^ 127), Fin 1] [0, 1]
        [Fin (- (2 ^ 127)), Fin 3] None ''m'' ''c'' 0 ''regression'') = Some (Num PosInf)
   \<and> metric_of ''OLF'' (calculate_metrics float32_floats no_scores [Fin (2 ^ 127), Fin 1] [0, 1]
        [Fin (- (2 ^ 127)), Fin 3] None ''m'' ''c'' 0 ''regression'') = Some (Num (Fin 1))
   \<and> fge PosInf 0"
proof -
  have "rounding_ok float32_range 2"
    by (rule float32_range_ok) (simp add: float32_max_def)
  then have ok: "rounding_ok (tensor_round float32_floats) (length [Fin (2 ^ 127), Fin 1])"
    by (simp add: float32_floats_def numeral_2_eq_2)
  show ?thesis
    using regression_metrics_nonneg_bounded
      [OF _ _ _ _ ok, of "[Fin (- (2 ^ 127)), Fin 3]" no_scores "[0, 1]" None "''m''" "''c''" 0]
    by (simp add: metric_of_def calculate_metrics_def regression_metrics_def broadcast2_def
        mean_def fsum_def fsub_def float32_floats_def float32_range_def float32_max_def)
qed

section \<open>Properties of the baseline predictors\<close>

text \<open>
  Claim C1, as stated, fails for the two predictors: they lower the task string before
  the test, so \<^verbatim>\<open>Regression\<close>, which is outside {regression, classification}, fits
  a model and returns predictions.
\<close>

theorem capitalised_task_is_accepted:
  "get_linear_predictions mean_sklearn [[1], [2]] (Y1 [1, 3]) None None ''Regression'' = Inr [2, 2]
   \<and> ''Regression'' \<notin> {''regression'', ''classification''}"
  by (simp add: get_linear_predictions_def linear_model_def lower_def lower_char_def
      mean_sklearn_def mean_estimator_def)

text \<open>
  Claim C1, amended.  \<^verbatim>\<open>calculate_metrics\<close> raises the invalid-task \<^verbatim>\<open>ValueError\<close> for
  every task string outside {regression, classification}; \<^verbatim>\<open>get_linear_predictions\<close>
  and \<^verbatim>\<open>get_knn_predictions\<close> raise it for every task string whose lower-cased form is
  outside that set.  The call ends there: no metrics and no predictions.
\<close>

theorem invalid_task_raises:
  "(task \<notin> {''regression'', ''classification''} \<longrightarrow>
      calculate_metrics fl sc yt ylbl yp lc label comb ident task =
        Inl (ValueError
          ''Could not understand the task! Please set task to 'redshift' or 'classification'.''))
   \<and> (lower task \<notin> {''regression'', ''classification''} \<longrightarrow>
      get_linear_predictions sk X Y X_val Y_val task = Inl (ValueError ''Invalid task'')
      \<and> get_knn_predictions sk X Y X_val Y_val k task = Inl (ValueError ''Invalid task''))"
  by (simp add: calculate_metrics_def get_linear_predictions_def get_knn_predictions_def
      linear_model_def knn_model_def)

text \<open>The amended claim C1 at the task \<^verbatim>\<open>redshift\<close>.\<close>

theorem invalid_task_raises_witness:
  "''redshift'' \<notin> {''regression'', ''classification''}
   \<and> lower ''redshift'' \<notin> {''regression'', ''classification''}
   \<and> calculate_metrics exact_floats no_scores [Fin 1] [0] [Fin 1] None ''m'' ''c'' 0 ''redshift'' =
        Inl (ValueError
          ''Could not understand the task! Please set task to 'redshift' or 'classification'.'')
   \<and> get_linear_predictions mean_sklearn [[1]] (Y1 [1]) None None ''redshift''
        = Inl (ValueError ''Invalid task'')
   \<and> get_knn_predictions mean_sklearn [[1]] (Y1 [1]) None None 5 ''redshift''
        = Inl (ValueError ''Invalid task'')"
  using invalid_task_raises [of "''redshift''" exact_floats no_scores "[Fin 1]" "[0]" "[Fin 1]" None "''m''" "''c''" 0
      mean_sklearn "[[1]]" "Y1 [1]" None None 5]
  by (simp add: lower_def lower_char_def)



section \<open>Properties of the class-conditional metrics\<close>

lemma regression_metrics_returns:
  assumes "length yt = length yp"
  shows "\<exists>r. regression_metrics fl yt yp = Inr r"
  using assms by (simp add: regression_metrics_def broadcast2_same Let_def)

lemma length_mask_filter:
  "length xs = length ys \<Longrightarrow>
   length (filter snd (zip xs (map P ys))) = length (filter P ys)"
  by (induction xs ys rule: list_induct2) auto

lemma mask_select_same:
  "length xs = length ys \<Longrightarrow>
   mask_select xs (map P ys) = Inr (map fst (filter snd (zip xs (map P ys))))"
  by (simp add: mask_select_def)

lemma mask_is_partition:
  "length xs = length ys \<Longrightarrow>
   map fst (filter snd (zip xs (map (\<lambda>l. l = label) ys)))
     = map fst (filter (\<lambda>(x, l). l = label) (zip xs ys))"
  by (induction xs ys rule: list_induct2) auto

lemma class_entry_shape:
  assumes "class_entry fl sk row c = Inr m"
  shows "map fst m = metric_keys \<and> tag m = class_tag row c"
proof -
  obtain label class_name color where c: "c = (label, class_name, color)"
    by (cases c) auto
  let ?yt = "class_partition (y_true row) (y_true_label row) label"
  let ?yl = "class_partition (y_true_label row) (y_true_label row) label"
  let ?yp = "class_partition (y_pred row) (y_true_label row) label"
  show ?thesis
  proof (cases "regression_metrics fl ?yt ?yp")
    case (Inl e)
    then have "class_entry fl sk row c = Inl e"
      by (simp add: class_entry_def c calculate_metrics_def)
    then show ?thesis using assms by simp
  next
    case (Inr r)
    obtain l1 l2 r2 olf where r: "r = (l1, l2, r2, olf)" by (cases r) auto
    have "class_entry fl sk row c = Inr (AList.update ''class'' (Str class_name)
       [(''Model'', Str (Model row)), (''Combination'', Str (Combination row)),
        (''L1'', Num l1), (''L2'', Num l2), (''R2'', Num r2), (''OLF'', Num olf),
        (''id'', IntV (fold_id row))])"
      by (simp add: class_entry_def c calculate_metrics_def Inr r)
    then have "m = AList.update ''class'' (Str class_name)
       [(''Model'', Str (Model row)), (''Combination'', Str (Combination row)),
        (''L1'', Num l1), (''L2'', Num l2), (''R2'', Num r2), (''OLF'', Num olf),
        (''id'', IntV (fold_id row))]"
      using assms by simp
    then show ?thesis by (simp add: metric_keys_def tag_def class_tag_def c)
  qed
qed

lemma class_loop_entries:
  assumes l: "length yp = length ylbl" "length yt = length ylbl"
    and f: "y_pred row = Some yp" "y_true row = Some yt" "y_true_label row = Some ylbl"
  shows "\<exists>ms. class_loop fl sk row yp yt ylbl cns results = Inr (results @ ms)
           \<and> map Inr ms = map (class_entry fl sk row)
               (filter (\<lambda>(label, class_name, color). 0 < members row label) cns)"
proof (induction cns arbitrary: results)
  case Nil
  then show ?case by simp
next
  case (Cons c cns)
  obtain label class_name color where c: "c = (label, class_name, color)"
    by (cases c) auto
  let ?msk = "map (\<lambda>l. l = label) ylbl"
  let ?ypc = "map fst (filter snd (zip yp ?msk))"
  let ?ytc = "map fst (filter snd (zip yt ?msk))"
  let ?lc = "map fst (filter snd (zip ylbl ?msk))"
  have sel: "mask_select yp ?msk = Inr ?ypc" "mask_select yt ?msk = Inr ?ytc"
    "mask_select ylbl ?msk = Inr ?lc"
    using l by (simp_all add: mask_select_same)
  have len: "length ?ypc = members row label" "length ?ytc = members row label"
    using l by (simp_all add: length_mask_filter members_def f)
  have part: "?ypc = class_partition (y_pred row) (y_true_label row) label"
    "?ytc = class_partition (y_true row) (y_true_label row) label"
    "?lc = class_partition (y_true_label row) (y_true_label row) label"
    using l by (simp_all add: class_partition_def f mask_is_partition)
  show ?case
  proof (cases "0 < members row label")
    case False
    then have step: "class_loop fl sk row yp yt ylbl (c # cns) results
        = class_loop fl sk row yp yt ylbl cns results"
      unfolding c class_loop.simps Let_def sel bindE_Inr len by simp
    from Cons.IH [of results] False show ?thesis
      unfolding step by (simp add: c)
  next
    case True
    have "length ?ytc = length ?ypc" using len by simp
    then obtain l1 l2 r2 olf where r: "regression_metrics fl ?ytc ?ypc = Inr (l1, l2, r2, olf)"
      using regression_metrics_returns [of ?ytc ?ypc fl] by (metis prod_cases4)
    define m where "m = AList.update ''class'' (Str class_name)
       [(''Model'', Str (Model row)), (''Combination'', Str (Combination row)),
        (''L1'', Num l1), (''L2'', Num l2), (''R2'', Num r2), (''OLF'', Num olf),
        (''id'', IntV (fold_id row))]"
    have cm: "calculate_metrics fl sk ?ytc ?lc ?ypc None (Model row) (Combination row) (fold_id row)
          ''regression''
        = Inr ([(''Model'', Str (Model row)), (''Combination'', Str (Combination row)),
        (''L1'', Num l1), (''L2'', Num l2), (''R2'', Num r2), (''OLF'', Num olf),
        (''id'', IntV (fold_id row))],
        \<lparr> Model = Model row, Combination = Combination row, fold_id = fold_id row,
          y_pred = Some ?ypc, y_true = Some ?ytc, y_true_label = Some ?lc, lc_data = None \<rparr>)"
      by (simp add: calculate_metrics_def r)
    have step: "class_loop fl sk row yp yt ylbl (c # cns) results
        = class_loop fl sk row yp yt ylbl cns (results @ [m])"
      unfolding c class_loop.simps Let_def sel bindE_Inr len cm m_def using True by simp
    have ce: "class_entry fl sk row c = Inr m"
      by (simp add: class_entry_def c part [symmetric] cm m_def)
    from Cons.IH [of "results @ [m]"] obtain ms where
      ms: "class_loop fl sk row yp yt ylbl cns (results @ [m]) = Inr ((results @ [m]) @ ms)"
      "map Inr ms = map (class_entry fl sk row)
               (filter (\<lambda>(label, class_name, color). 0 < members row label) cns)"
      by blast
    have "class_loop fl sk row yp yt ylbl (c # cns) results = Inr (results @ (m # ms))"
      unfolding step ms(1) by simp
    moreover have "map Inr (m # ms) = map (class_entry fl sk row)
               (filter (\<lambda>(label, class_name, color). 0 < members row label) (c # cns))"
      using True ms(2) ce by (simp add: c)
    ultimately show ?thesis by blast
  qed
qed

lemma row_loop_entries:
  assumes "\<forall>r \<in> set inputs. wf_record r"
  shows "\<exists>ms. row_loop fl sk cns inputs results = Inr (results @ ms)
           \<and> map Inr ms = concat (map (\<lambda>row. map (class_entry fl sk row)
               (filter (\<lambda>(label, class_name, color). 0 < members row label) cns)) inputs)"
  using assms
proof (induction inputs arbitrary: results)
  case Nil
  then show ?case by simp
next
  case (Cons row rows)
  from Cons.prems have "wf_record row" by simp
  then obtain yp yt yl where f: "y_pred row = Some yp" "y_true row = Some yt"
    "y_true_label row = Some yl" and l: "length yp = length yl" "length yt = length yl"
    by (auto simp: wf_record_def split: option.splits)
  obtain ms1 where m1: "class_loop fl sk row yp yt yl cns results = Inr (results @ ms1)"
    "map Inr ms1 = map (class_entry fl sk row)
       (filter (\<lambda>(label, class_name, color). 0 < members row label) cns)"
    using class_loop_entries [OF l f] by blast
  from Cons.prems have "\<forall>r \<in> set rows. wf_record r" by simp
  from Cons.IH [OF this, of "results @ ms1"] obtain ms2 where
    m2: "row_loop fl sk cns rows (results @ ms1) = Inr ((results @ ms1) @ ms2)"
    "map Inr ms2 = concat (map (\<lambda>row. map (class_entry fl sk row)
               (filter (\<lambda>(label, class_name, color). 0 < members row label) cns)) rows)"
    by blast
  have "row_loop fl sk cns (row # rows) results = Inr (results @ (ms1 @ ms2))"
    by (simp add: f to_tensor_def m1 m2)
  moreover have "map Inr (ms1 @ ms2) = concat (map (\<lambda>row. map (class_entry fl sk row)
               (filter (\<lambda>(label, class_name, color). 0 < members row label) cns)) (row # rows))"
    by (simp add: m1(2) m2(2))
  ultimately show ?case by blast
qed

lemma entries_shape:
  "map Inr ms = concat (map (\<lambda>row. map (class_entry fl sk row) (sel row)) inputs) \<Longrightarrow>
   list_all (\<lambda>m. map fst m = metric_keys) ms
   \<and> map tag ms = concat (map (\<lambda>row. map (class_tag row) (sel row)) inputs)"
proof (induction inputs arbitrary: ms)
  case Nil
  then show ?case by simp
next
  case (Cons row rows)
  have inner: "map Inr ms = map (class_entry fl sk row) cs @ rest \<Longrightarrow>
      \<exists>ms1 ms2. ms = ms1 @ ms2 \<and> map Inr ms2 = rest
        \<and> list_all (\<lambda>m. map fst m = metric_keys) ms1 \<and> map tag ms1 = map (class_tag row) cs"
    for cs rest and ms :: "metrics list"
  proof (induction cs arbitrary: ms)
    case Nil
    then show ?case by simp
  next
    case (Cons c cs)
    from Cons.prems obtain m ms' where ms: "ms = m # ms'"
      and m: "class_entry fl sk row c = Inr m"
      and r: "map Inr ms' = map (class_entry fl sk row) cs @ rest"
      by (cases ms) auto
    from Cons.IH [OF r] obtain ms1 ms2 where
      s: "ms' = ms1 @ ms2" "map Inr ms2 = rest"
      "list_all (\<lambda>m. map fst m = metric_keys) ms1" "map tag ms1 = map (class_tag row) cs"
      by blast
    have "ms = (m # ms1) @ ms2" by (simp add: ms s(1))
    moreover have "list_all (\<lambda>m. map fst m = metric_keys) (m # ms1)"
      using s(3) class_entry_shape [OF m] by simp
    moreover have "map tag (m # ms1) = map (class_tag row) (c # cs)"
      using s(4) class_entry_shape [OF m] by simp
    ultimately show ?case using s(2) by blast
  qed
  from Cons.prems have "map Inr ms = map (class_entry fl sk row) (sel row)
      @ concat (map (\<lambda>row. map (class_entry fl sk row) (sel row)) rows)"
    by simp
  from inner [OF this] obtain ms1 ms2 where
    s: "ms = ms1 @ ms2"
    "map Inr ms2 = concat (map (\<lambda>row. map (class_entry fl sk row) (sel row)) rows)"
    "list_all (\<lambda>m. map fst m = metric_keys) ms1" "map tag ms1 = map (class_tag row) (sel row)"
    by blast
  from Cons.IH [OF s(2)] show ?case using s(1,3,4) by simp
qed

text \<open>
  Claim C9.  For well-formed input records and any class-name map,
  \<^verbatim>\<open>get_class_dependent_predictions\<close> raises nothing and emits, in order, one metrics
  dictionary for each record and each class of the map with at least one member among
  the record's true labels, and none for a class with no member.  The dictionary emitted
  is the one \<^verbatim>\<open>calculate_metrics\<close> returns for the task \<^verbatim>\<open>regression\<close> on the true values,
  labels and predictions of the members of the class, with the class name added under
  \<^verbatim>\<open>class\<close>: its keys are Model, Combination, L1, L2, R2, OLF, id and class, and it
  carries the record's keys and the class name.
\<close>

theorem class_dependent_predictions_skip_empty:
  assumes "\<forall>r \<in> set inputs. wf_record r"
  shows "\<exists>results. get_class_dependent_predictions fl sk inputs class_names = Inr results
           \<and> map Inr results = concat (map (\<lambda>row. map (class_entry fl sk row)
               (filter (\<lambda>(label, class_name, color). 0 < members row label) class_names)) inputs)
           \<and> list_all (\<lambda>m. map fst m = metric_keys) results
           \<and> map tag results = concat (map (\<lambda>row. map (class_tag row)
               (filter (\<lambda>(label, class_name, color). 0 < members row label) class_names)) inputs)"
proof -
  obtain ms where ms: "row_loop fl sk class_names inputs [] = Inr ([] @ ms)"
    "map Inr ms = concat (map (\<lambda>row. map (class_entry fl sk row)
               (filter (\<lambda>(label, class_name, color). 0 < members row label) class_names)) inputs)"
    using row_loop_entries [OF assms, of fl sk class_names "[]"] by blast
  have "get_class_dependent_predictions fl sk inputs class_names = Inr ms"
    using ms(1) by (simp add: get_class_dependent_predictions_def)
  then show ?thesis using ms(2) entries_shape [OF ms(2)] by blast
qed

text \<open>
  Claim C9 on a record with predictions [1,2,3], true values [1,2,4] and labels [0,0,2],
  in exact arithmetic: class 0 is emitted with the metrics of [1,2] against [1,2],
  class 2 with the metrics of [3] against [4], class 1 is not emitted.
\<close>

theorem class_dependent_predictions_skip_empty_witness:
  "list_all wf_record run_input
   \<and> get_class_dependent_predictions exact_floats no_scores run_input run_classes =
       Inr [[(''Model'', Str ''knn''), (''Combination'', Str ''spectral''),
             (''L1'', Num (Fin 0)), (''L2'', Num (Fin 0)), (''R2'', Num (Fin 1)),
             (''OLF'', Num (Fin 0)), (''id'', IntV 0), (''class'', Str ''SN Ia'')],
            [(''Model'', Str ''knn''), (''Combination'', Str ''spectral''),
             (''L1'', Num (Fin 1)), (''L2'', Num (Fin 1)), (''R2'', Num NegInf),
             (''OLF'', Num (Fin 1)), (''id'', IntV 0), (''class'', Str ''SLSN'')]]
   \<and> map (class_entry exact_floats no_scores (hd run_input)) [(0, ''SN Ia'', ''blue''), (2, ''SLSN'', ''green'')] =
       [Inr [(''Model'', Str ''knn''), (''Combination'', Str ''spectral''),
             (''L1'', Num (Fin 0)), (''L2'', Num (Fin 0)), (''R2'', Num (Fin 1)),
             (''OLF'', Num (Fin 0)), (''id'', IntV 0), (''class'', Str ''SN Ia'')],
        Inr [(''Model'', Str ''knn''), (''Combination'', Str ''spectral''),
             (''L1'', Num (Fin 1)), (''L2'', Num (Fin 1)), (''R2'', Num NegInf),
             (''OLF'', Num (Fin 1)), (''id'', IntV 0), (''class'', Str ''SLSN'')]]"
  using class_dependent_predictions_skip_empty [of run_input exact_floats no_scores run_classes]
  by (simp add: run_input_def run_classes_def wf_record_def get_class_dependent_predictions_def
      to_tensor_def mask_select_def calculate_metrics_def regression_metrics_def broadcast2_def
      mean_def fsum_def fsub_def exact_floats_def class_entry_def class_partition_def)

section \<open>Properties of the retrieval score\<close>

lemma trapz_same:
  "xs \<noteq> [] \<Longrightarrow> trapz xs xs = ((last xs)\<^sup>2 - (hd xs)\<^sup>2) / 2"
proof (induction xs rule: induct_list012)
  case 1
  then show ?case by simp
next
  case (2 x)
  then show ?case by simp
next
  case (3 x y zs)
  define L where "L = last (y # zs)"
  have ih: "trapz (y # zs) (y # zs) = (L\<^sup>2 - y\<^sup>2) / 2"
    using "3.IH"(2) by (simp add: L_def)
  have l: "last (x # y # zs) = L" by (simp add: L_def)
  have "trapz (x # y # zs) (x # y # zs) = (y - x) * (y + x) / 2 + (L\<^sup>2 - y\<^sup>2) / 2"
    by (simp add: ih)
  also have "\<dots> = (L\<^sup>2 - x\<^sup>2) / 2"
    by (simp add: power2_eq_square field_simps)
  finally show ?case unfolding l by simp
qed

text \<open>
  Claim C4.  The trapezoidal integration of \<^verbatim>\<open>get_AUC\<close>, applied to the curve whose
  fraction-correct value at each of the 100 thresholds is the threshold itself, gives
  exactly 1/2 (in exact arithmetic).
\<close>

theorem trapz_of_diagonal_is_half:
  "np_trapz (NArray thresholds) thresholds = Inr (1 / 2)"
proof -
  have ne: "thresholds \<noteq> []" by (simp add: thresholds_def)
  have h: "hd thresholds = 0" by (simp add: thresholds_def hd_map)
  have l: "last thresholds = 1" by (simp add: thresholds_def last_map)
  show ?thesis by (simp add: np_trapz_def trapz_same [OF ne] h l)
qed

section \<open>Properties of the class filter\<close>

lemma select_all:
  "length xs = length ys \<Longrightarrow> map fst (filter snd (zip xs (map (\<lambda>v. True) ys))) = xs"
  by (induction xs ys rule: list_induct2) auto

lemma mask_select_all:
  "length xs = length y \<Longrightarrow> mask_select xs (map (\<lambda>v. True) y) = Inr xs"
  by (simp add: mask_select_def select_all)

lemma mapE_id:
  "(\<And>x. x \<in> set xs \<Longrightarrow> f x = Inr x) \<Longrightarrow> mapE f xs = Inr xs"
  by (induction xs) auto

lemma remap_identity:
  "length r = length y \<Longrightarrow> set y \<subseteq> {0, 1, 2} \<Longrightarrow>
   foldl (remap_step y) r [(0, 0), (1, 1), (2, 2)] = y"
  by (induction r y rule: list_induct2) (auto simp: remap_step_def)

text \<open>
  Claim C7.  On a dataset whose labels are among 0, 1, 2 (so also when they are exactly
  0, 1, 2), with one row of every feature matrix and of every auxiliary array per label,
  \<^verbatim>\<open>filter_classes\<close> with target classes [0,1,2] returns the feature matrices and the
  auxiliary data unchanged, and the remapped labels are the original labels, whatever
  the uninitialised tensor held.
\<close>

theorem filter_classes_all_classes_noop:
  assumes y: "set y \<subseteq> {0, 1, 2}"
    and X: "\<forall>X \<in> set X_list. length X = length y"
    and lc: "\<forall>d. lc = Some d \<longrightarrow> (\<forall>(key, v) \<in> set d. length v = length y)"
  shows "filter_classes uninit X_list y lc [0, 1, 2] = Inr (X_list, y, lc)"
proof -
  have msk: "map (\<lambda>v. v \<in> set [0, 1, 2]) y = map (\<lambda>v. True) y"
    using y by (auto simp: subset_iff)
  have x: "mapE (\<lambda>X. mask_select X (map (\<lambda>v. True) y)) X_list = Inr X_list"
    by (rule mapE_id) (use X in \<open>auto simp: mask_select_all\<close>)
  have l: "(case lc of None \<Rightarrow> Inr None
       | Some d \<Rightarrow> bindE (mapE (\<lambda>(key, v). bindE (mask_select v (map (\<lambda>v. True) y)) (\<lambda>fv. Inr (key, fv))) d)
                       (\<lambda>kvs. Inr (Some kvs))) = Inr lc"
  proof (cases lc)
    case None
    then show ?thesis by simp
  next
    case (Some d)
    have "mapE (\<lambda>(key, v). bindE (mask_select v (map (\<lambda>v. True) y)) (\<lambda>fv. Inr (key, fv))) d = Inr d"
      by (rule mapE_id) (use lc Some in \<open>auto simp: mask_select_all\<close>)
    then show ?thesis using Some by simp
  qed
  have e: "enumerate 0 [0, 1, 2 :: int] = [(0, 0), (1, 1), (2, 2)]" by simp
  have r: "foldl (remap_step y) (empty_like uninit y) [(0, 0), (1, 1), (2, 2)] = y"
    by (rule remap_identity) (use y in \<open>auto simp: empty_like_def\<close>)
  show ?thesis
    unfolding filter_classes_def Let_def msk x l bindE_Inr mask_select_all [OF refl] e r ..
qed

text \<open>Claim C7 on three examples, one of each class.\<close>

theorem filter_classes_all_classes_noop_witness:
  "set [0, 1, 2 :: int] \<subseteq> {0, 1, 2}
   \<and> filter_classes stale_memory [[[1 :: real], [2], [3]]] [0, 1, 2]
        (Some [(''t'', [5 :: real, 6, 7])]) [0, 1, 2]
      = Inr ([[[1], [2], [3]]], [0, 1, 2], Some [(''t'', [5, 6, 7])])"
  using filter_classes_all_classes_noop [of "[0, 1, 2]" "[[[1 :: real], [2], [3]]]"
      "Some [(''t'', [5 :: real, 6, 7])]" stale_memory]
  by simp

section \<open>Properties of the training monitor\<close>

lemma val_loss_absent_skipped:
  "cm ''val_loss'' = None \<Longrightarrow> on_validation_epoch_end self cm = (None, self)"
  by (simp add: on_validation_epoch_end_def)

lemma auc_absent_skipped:
  "cm ''AUC_val'' = None \<Longrightarrow> cm ''AUC_val1'' = None \<Longrightarrow>
   auc_val_history (snd (on_validation_end self cm)) = auc_val_history self"
  by (simp add: on_validation_end_def truthy_def)

text \<open>
  Claim C2 says that nothing is appended to a history when its metric is absent from the
  feed.  Run on a feed with no metric at all: one batch, the end of the training epoch
  and the end of validation leave a \<^verbatim>\<open>None\<close> in both R2 histories.
\<close>

theorem r2_history_records_none_when_absent:
  "run_callbacks init_callback [TrainBatchEnd 1, TrainEpochEnd Map.empty, ValidationEnd Map.empty]
   = (None, init_callback\<lparr> train_loss_history := [1], R2_val_history := [None],
                            R2_train_history := [None] \<rparr>)"
  by (simp add: init_callback_def on_train_batch_end_def on_train_epoch_end_def
      on_validation_end_def truthy_def)

section \<open>Properties of the result aggregation\<close>

lemma run_keys: "sort (remdups (map group_key run_records)) = [(''knn'', ''meta'', 0), (''knn'', ''spectral'', 1)]"
  by (simp add: run_records_def group_key_def)

lemma merge_run: "mergekfold_results run_records = Inr run_table"
  unfolding mergekfold_results_def groupby_def run_keys
  by (simp add: run_records_def run_table_def group_key_def merge_group_def np_concatenate_def
      dropna_def concat_lc_data_def)


lemma mapE_Inr_all2:
  "mapE f xs = Inr ys \<Longrightarrow> list_all2 (\<lambda>x y. f x = Inr y) xs ys"
proof (induction xs arbitrary: ys)
  case Nil
  then show ?case by simp
next
  case (Cons x xs)
  then show ?case
    by (auto simp: bindE_def split: sum.splits)
qed

lemma mapE_returns:
  "(\<And>x. x \<in> set xs \<Longrightarrow> \<exists>y. f x = Inr y) \<Longrightarrow> \<exists>ys. mapE f xs = Inr ys"
proof (induction xs)
  case Nil
  then show ?case by simp
next
  case (Cons x xs)
  then obtain y where "f x = Inr y" by auto
  moreover from Cons obtain ys where "mapE f xs = Inr ys" by auto
  ultimately show ?case by simp
qed

lemma set_dropna: "set (dropna xs) = {x. Some x \<in> set xs}"
  by (induction xs) (auto simp: dropna_def split: option.splits)

lemma dropna_nonempty:
  assumes "r \<in> set grp" and "f r \<noteq> None"
  shows "dropna (map f grp) \<noteq> []"
proof -
  from assms(2) obtain v where "f r = Some v" by auto
  with assms(1) have "v \<in> set (dropna (map f grp))"
    by (force simp: set_dropna)
  then show ?thesis by auto
qed

lemma merge_group_Inr:
  assumes "merge_group ((m, c, i), grp) = Inr row"
  shows "group_key row = (m, c, i)
       \<and> y_pred row = Some (concat (dropna (map y_pred grp)))
       \<and> y_true row = Some (concat (dropna (map y_true grp)))
       \<and> y_true_label row = Some (concat (dropna (map y_true_label grp)))"
  using assms
  by (auto simp: merge_group_def np_concatenate_def bindE_def group_key_def
      split: sum.splits if_splits)

lemma merged_rows:
  assumes "mergekfold_results results = Inr table"
  shows "map group_key table = sort (remdups (map group_key results))
       \<and> (\<forall>row \<in> set table.
            y_pred row = Some (concat (dropna (map y_pred (group_of results row))))
          \<and> y_true row = Some (concat (dropna (map y_true (group_of results row))))
          \<and> y_true_label row = Some (concat (dropna (map y_true_label (group_of results row)))))"
proof -
  from assms have m: "mapE merge_group (groupby results) = Inr table"
    by (auto simp: mergekfold_results_def split: if_splits)
  have a2: "list_all2 (\<lambda>g row. merge_group g = Inr row) (groupby results) table"
    using mapE_Inr_all2 [OF m] .
  have g: "\<And>g. g \<in> set (groupby results) \<Longrightarrow> snd g = filter (\<lambda>r. group_key r = fst g) results"
    by (auto simp: groupby_def)
  have key: "list_all2 (\<lambda>g row. group_key row = fst g) (groupby results) table"
    using a2 by (rule list_all2_mono) (metis merge_group_Inr prod.collapse)
  then have "map group_key table = map fst (groupby results)"
    by (induction rule: list_all2_induct) auto
  then have k: "map group_key table = sort (remdups (map group_key results))"
    by (simp add: groupby_def comp_def)
  have rows: "y_pred row = Some (concat (dropna (map y_pred (group_of results row))))
          \<and> y_true row = Some (concat (dropna (map y_true (group_of results row))))
          \<and> y_true_label row = Some (concat (dropna (map y_true_label (group_of results row))))"
    if "row \<in> set table" for row
  proof -
    from that obtain n where n: "n < length table" "row = table ! n"
      by (auto simp: in_set_conv_nth)
    define gr where "gr = groupby results ! n"
    have len: "length (groupby results) = length table"
      using a2 by (rule list_all2_lengthD)
    have gr: "gr \<in> set (groupby results)" "merge_group gr = Inr row"
      using n len list_all2_nthD2 [OF a2 n(1)] by (simp_all add: gr_def)
    obtain k grp where e0: "gr = (k, grp)" by (cases gr)
    obtain mo co i where "k = (mo, co, i)" by (cases k)
    with e0 have e: "gr = ((mo, co, i), grp)" by simp
    from merge_group_Inr [OF gr(2) [unfolded e]] g [OF gr(1)] e
    show ?thesis by (simp add: group_of_def)
  qed
  show ?thesis using k rows by blast
qed

lemma complete_returns:
  assumes "complete_records results"
  shows "\<exists>table. mergekfold_results results = Inr table"
proof -
  from assms have ne: "results \<noteq> []"
    and arr: "\<And>r. r \<in> set results \<Longrightarrow> y_pred r \<noteq> None \<and> y_true r \<noteq> None \<and> y_true_label r \<noteq> None"
    and lc: "\<And>r r' d d' key. r \<in> set results \<Longrightarrow> r' \<in> set results \<Longrightarrow> lc_data r = Some d \<Longrightarrow>
               lc_data r' = Some d' \<Longrightarrow> key \<in> fst ` set d \<Longrightarrow> map_of d' key \<noteq> None"
    by (auto simp: complete_records_def list_all_iff split: option.splits) (metis fst_conv)
  have "\<exists>row. merge_group gr = Inr row" if gr: "gr \<in> set (groupby results)" for gr
  proof -
    obtain key where e: "gr = (key, filter (\<lambda>r. group_key r = key) results)"
      and kin: "key \<in> set (map group_key results)"
      using gr by (auto simp: groupby_def)
    define grp where "grp = filter (\<lambda>r. group_key r = key) results"
    have sub: "set grp \<subseteq> set results" by (auto simp: grp_def)
    from kin obtain r0 where r0: "r0 \<in> set grp" by (auto simp: grp_def)
    have p: "dropna (map y_pred grp) \<noteq> []" "dropna (map y_true grp) \<noteq> []"
      "dropna (map y_true_label grp) \<noteq> []"
    proof -
      have in_res: "r0 \<in> set results" using r0 sub by auto
      show "dropna (map y_pred grp) \<noteq> []"
        by (rule dropna_nonempty [OF r0]) (use arr [OF in_res] in simp)
      show "dropna (map y_true grp) \<noteq> []"
        by (rule dropna_nonempty [OF r0]) (use arr [OF in_res] in simp)
      show "dropna (map y_true_label grp) \<noteq> []"
        by (rule dropna_nonempty [OF r0]) (use arr [OF in_res] in simp)
    qed
    have lcok: "\<exists>v. concat_lc_data grp = Inr v"
    proof (cases "dropna (map lc_data grp)")
      case Nil
      then show ?thesis by (simp add: concat_lc_data_def)
    next
      case (Cons d0 ds)
      have mem: "\<And>d. d \<in> set (d0 # ds) \<Longrightarrow> \<exists>r \<in> set results. lc_data r = Some d"
        using sub unfolding Cons [symmetric] set_dropna by force
      have "\<exists>kv. bindE (mapE (\<lambda>d. dict_get d key) (d0 # ds)) (\<lambda>arrays.
                   bindE (np_concatenate arrays) (\<lambda>a. Inr (key, a))) = Inr kv"
        if "key \<in> set (map fst d0)" for key
      proof -
        have "\<exists>arrays. mapE (\<lambda>d. dict_get d key) (d0 # ds) = Inr arrays"
        proof (rule mapE_returns)
          fix d assume "d \<in> set (d0 # ds)"
          then obtain r r' where "r \<in> set results" "lc_data r = Some d0"
            "r' \<in> set results" "lc_data r' = Some d"
            using mem by (metis list.set_intros(1))
          with lc [of r r' d0 d key] that have "map_of d key \<noteq> None" by auto
          then show "\<exists>y. dict_get d key = Inr y" by (auto simp: dict_get_def)
        qed
        then obtain arrays where ar: "mapE (\<lambda>d. dict_get d key) (d0 # ds) = Inr arrays" by blast
        then have "arrays \<noteq> []" by (auto simp: bindE_def split: sum.splits)
        then show ?thesis unfolding ar by (simp add: np_concatenate_def)
      qed
      then have "\<exists>kvs. mapE (\<lambda>key. bindE (mapE (\<lambda>d. dict_get d key) (d0 # ds)) (\<lambda>arrays.
                   bindE (np_concatenate arrays) (\<lambda>a. Inr (key, a)))) (map fst d0) = Inr kvs"
        by (intro mapE_returns) auto
      then show ?thesis by (auto simp: concat_lc_data_def Cons)
    qed
    then obtain v where v: "concat_lc_data grp = Inr v" by blast
    obtain mo co i where k3: "key = (mo, co, i)" by (cases key)
    have "gr = ((mo, co, i), grp)" by (simp add: e grp_def k3)
    moreover have "\<exists>row. merge_group ((mo, co, i), grp) = Inr row"
      using p by (simp add: merge_group_def np_concatenate_def v)
    ultimately show ?thesis by simp
  qed
  then have "\<exists>table. mapE merge_group (groupby results) = Inr table"
    by (intro mapE_returns) auto
  then show ?thesis using ne by (simp add: mergekfold_results_def)
qed


text \<open>
  Claim C5.  In the table \<^verbatim>\<open>mergekfold_results\<close> returns there is one row per group
  key, in sorted key order, and in each row each of \<^verbatim>\<open>y_pred\<close>, \<^verbatim>\<open>y_true\<close> and
  \<^verbatim>\<open>y_true_label\<close> is the concatenation, in input order, of the arrays of the input
  records of that group, so its length is the sum of their lengths.  The function
  returns a table whenever the list is not empty, every record has its three arrays and
  the auxiliary dictionaries share their keys.
\<close>

theorem mergekfold_results_concatenates:
  "(complete_records results \<longrightarrow> (\<exists>table. mergekfold_results results = Inr table))
   \<and> (\<forall>table. mergekfold_results results = Inr table \<longrightarrow>
        map group_key table = sort (remdups (map group_key results))
      \<and> (\<forall>row \<in> set table.
            y_pred row = Some (concat (dropna (map y_pred (group_of results row))))
          \<and> map_option length (y_pred row)
              = Some (sum_list (map length (dropna (map y_pred (group_of results row)))))
          \<and> y_true row = Some (concat (dropna (map y_true (group_of results row))))
          \<and> map_option length (y_true row)
              = Some (sum_list (map length (dropna (map y_true (group_of results row)))))
          \<and> y_true_label row = Some (concat (dropna (map y_true_label (group_of results row))))
          \<and> map_option length (y_true_label row)
              = Some (sum_list (map length (dropna (map y_true_label (group_of results row)))))))"
  using complete_returns [of results] merged_rows [of results]
  by (simp add: length_concat)

lemma run_complete: "complete_records run_records"
  by (simp add: complete_records_def run_records_def)

text \<open>Claim C5 on three records, the first and the third of one group.\<close>

theorem mergekfold_results_concatenates_witness:
  "complete_records run_records
   \<and> mergekfold_results run_records = Inr run_table
   \<and> map group_key run_table = sort (remdups (map group_key run_records))
   \<and> list_all (\<lambda>row.
         y_pred row = Some (concat (dropna (map y_pred (group_of run_records row))))
       \<and> map_option length (y_pred row)
           = Some (sum_list (map length (dropna (map y_pred (group_of run_records row)))))
       \<and> y_true row = Some (concat (dropna (map y_true (group_of run_records row))))
       \<and> map_option length (y_true row)
           = Some (sum_list (map length (dropna (map y_true (group_of run_records row)))))
       \<and> y_true_label row = Some (concat (dropna (map y_true_label (group_of run_records row))))
       \<and> map_option length (y_true_label row)
           = Some (sum_list (map length (dropna (map y_true_label (group_of run_records row))))))
       run_table"
  unfolding list_all_iff
  using mergekfold_results_concatenates [of run_records] run_complete merge_run by blast

section \<open>Properties of the retrieval curve\<close>

lemma insert_desc_props:
  "length (insert_desc v i js) = Suc (length js) \<and> set (insert_desc v i js) = insert i (set js)"
  by (induction js) auto

lemma foldl_insert_desc:
  "length (foldl (\<lambda>acc i. insert_desc v i acc) acc is) = length acc + length is
   \<and> set (foldl (\<lambda>acc i. insert_desc v i acc) acc is) = set acc \<union> set is"
  by (induction "is" arbitrary: acc) (auto simp: insert_desc_props)

lemma argsort_desc_ok: "argsort_ok argsort_desc"
  by (auto simp: argsort_ok_def argsort_desc_def foldl_insert_desc)

lemma cosine_similarity_vec:
  assumes "list_all (\<lambda>row. length row = length b) a" and "length a \<noteq> 1"
  shows "\<exists>vs. cosine_similarity a b t = Inr (Vec vs) \<and> length vs = length a"
  using assms by (simp add: cosine_similarity_def Let_def)

lemma length_thresholds: "length thresholds = 100"
  by (simp add: thresholds_def)

lemma nth_thresholds: "i < 100 \<Longrightarrow> thresholds ! i = real i / 99"
  by (simp add: thresholds_def)

lemma pool_size_mono:
  "i \<le> j \<Longrightarrow> pool_size (real i / 99) n \<le> pool_size (real j / 99) n"
  unfolding pool_size_def
  by (intro nat_mono floor_mono mult_right_mono divide_right_mono) auto

lemma pool_size_full: "pool_size (real 99 / 99) n = n"
  by (simp add: pool_size_def)

lemma length_num_right: "length (num_right idx p) = 100"
  by (simp add: num_right_def length_thresholds)

lemma nth_num_right:
  "i < 100 \<Longrightarrow>
   num_right idx p ! i = (idx \<in> set (take (pool_size (real i / 99) (length p)) p))"
  by (simp add: num_right_def length_thresholds nth_thresholds)

lemma num_right_mono:
  assumes "i \<le> j" and "j < 100" and "num_right idx p ! i"
  shows "num_right idx p ! j"
proof -
  have "set (take (pool_size (real i / 99) (length p)) p)
      \<subseteq> set (take (pool_size (real j / 99) (length p)) p)"
    by (rule set_take_subset_set_take) (rule pool_size_mono [OF assms(1)])
  then show ?thesis using assms by (auto simp: nth_num_right)
qed

lemma num_right_last:
  assumes "length p = n" and "set p = {..<n}"
  shows "num_right idx p ! 99 = (idx < n)"
  using assms pool_size_full [of n] by (simp add: nth_num_right)

lemma roc_loop_rows:
  assumes ok: "argsort_ok argsort" and n1: "length embs1 \<noteq> 1"
    and dims: "\<forall>iq \<in> set qs. list_all (\<lambda>row. length row = length (snd iq)) embs1"
  shows "\<exists>rows. roc_loop argsort embs1 qs imgs = Inr (imgs @ rows)
           \<and> list_all2 (ranked_row (length embs1)) qs rows"
  using dims
proof (induction qs arbitrary: imgs)
  case Nil
  then show ?case by simp
next
  case (Cons iq qs)
  obtain idx q where iq: "iq = (idx, q)" by (cases iq)
  from Cons.prems iq have d: "list_all (\<lambda>row. length row = length q) embs1" by simp
  obtain vs where vs: "cosine_similarity embs1 q 1 = Inr (Vec vs)" "length vs = length embs1"
    using cosine_similarity_vec [OF d n1] by blast
  have rr: "ranked_row (length embs1) iq (num_right idx (argsort vs))"
    unfolding ranked_row_def
    by (rule exI [of _ "argsort vs"]) (use ok vs(2) in \<open>simp add: argsort_ok_def iq\<close>)
  from Cons.prems have "\<forall>iq \<in> set qs. list_all (\<lambda>row. length row = length (snd iq)) embs1"
    by simp
  from Cons.IH [OF this, of "imgs @ [num_right idx (argsort vs)]"] obtain rows where
    rows: "roc_loop argsort embs1 qs (imgs @ [num_right idx (argsort vs)])
            = Inr ((imgs @ [num_right idx (argsort vs)]) @ rows)"
      "list_all2 (ranked_row (length embs1)) qs rows"
    by blast
  have "roc_loop argsort embs1 (iq # qs) imgs = Inr (imgs @ (num_right idx (argsort vs) # rows))"
    by (simp add: iq vs(1) rows(1))
  moreover have "list_all2 (ranked_row (length embs1)) (iq # qs) (num_right idx (argsort vs) # rows)"
    using rr rows(2) by simp
  ultimately show ?case by blast
qed

lemma length_filter_mono:
  "(\<And>x. x \<in> set xs \<Longrightarrow> P x \<Longrightarrow> Q x) \<Longrightarrow> length (filter P xs) \<le> length (filter Q xs)"
  by (induction xs) auto

lemma length_filter_nth:
  "length (filter P xs) = length (filter (\<lambda>k. P (xs ! k)) [0..<length xs])"
proof -
  have "filter P (map (\<lambda>k. xs ! k) [0..<length xs])
      = map (\<lambda>k. xs ! k) (filter (\<lambda>k. P (xs ! k)) [0..<length xs])"
    by (simp add: filter_map comp_def)
  then show ?thesis by (metis length_map map_nth)
qed

lemma count_below: "length (filter (\<lambda>k. k < n) [0..<m]) = min n m"
  by (induction m) auto


lemma roc_curve:
  assumes ok: "argsort_ok argsort" and n1: "length embs1 \<noteq> 1"
    and dims: "same_dimension embs1 embs2" and ne: "embs2 \<noteq> []"
  shows "\<exists>fc. get_ROC_data argsort embs1 embs2 = Inr (thresholds, NArray fc)
           \<and> length fc = 100 \<and> sorted fc
           \<and> last fc = real (min (length embs1) (length embs2)) / real (length embs2)"
proof -
  define n where "n = length embs1"
  define m where "m = length embs2"
  define qs where "qs = enumerate 0 embs2"
  have m0: "0 < m" using ne by (simp add: m_def)
  have "\<forall>iq \<in> set qs. list_all (\<lambda>row. length row = length (snd iq)) embs1"
  proof
    fix iq assume "iq \<in> set qs"
    then have "snd iq \<in> snd ` set qs" by (rule imageI)
    then have "snd iq \<in> set (map snd qs)" by simp
    then have "snd iq \<in> set embs2" unfolding qs_def map_snd_enumerate .
    with dims show "list_all (\<lambda>row. length row = length (snd iq)) embs1"
      by (simp add: same_dimension_def list_all_iff)
  qed
  from roc_loop_rows [OF ok n1 this, of "[]"] obtain rows where
    loop: "roc_loop argsort embs1 qs [] = Inr rows"
    and all2: "list_all2 (ranked_row n) qs rows"
    by (auto simp: n_def)
  have lenr: "length rows = m"
    using list_all2_lengthD [OF all2] by (simp add: qs_def m_def)
  have rne: "rows \<noteq> []" using lenr m0 by auto
  have row: "\<exists>p. length p = n \<and> set p = {..<n} \<and> rows ! k = num_right k p" if "k < m" for k
  proof -
    have "ranked_row n (qs ! k) (rows ! k)"
      using list_all2_nthD2 [OF all2, of k] that lenr by simp
    moreover have "fst (qs ! k) = k"
      using that by (simp add: qs_def m_def nth_enumerate_eq)
    ultimately show ?thesis by (simp add: ranked_row_def)
  qed
  have mono: "r ! j" if "r \<in> set rows" "i \<le> j" "j < 100" "r ! i" for r i j
  proof -
    from that(1) obtain k where "k < m" "r = rows ! k"
      using lenr by (auto simp: in_set_conv_nth)
    with row [of k] obtain p where "r = num_right k p" by auto
    with that num_right_mono [of i j k p] show ?thesis by simp
  qed
  have top: "rows ! k ! 99 = (k < n)" if "k < m" for k
  proof -
    from row [OF that] obtain p where "length p = n" "set p = {..<n}" "rows ! k = num_right k p"
      by blast
    then show ?thesis by (simp add: num_right_last)
  qed
  define fc where "fc = map (\<lambda>c. real c / real m) (column_sums rows)"
  have lenfc: "length fc = 100"
    by (simp add: fc_def column_sums_def length_thresholds)
  have nthfc: "fc ! j = real (length (filter (\<lambda>r. r ! j) rows)) / real m" if "j < 100" for j
    using that by (simp add: fc_def column_sums_def length_thresholds)
  have res: "get_ROC_data argsort embs1 embs2 = Inr (thresholds, NArray fc)"
    using rne by (simp add: get_ROC_data_def qs_def [symmetric] loop fc_def m_def)
  have srt: "sorted fc"
    unfolding sorted_iff_nth_mono
  proof (intro allI impI)
    fix i j assume ij: "i \<le> j" "j < length fc"
    then have j: "j < 100" and i: "i < 100" using lenfc by auto
    have "length (filter (\<lambda>r. r ! i) rows) \<le> length (filter (\<lambda>r. r ! j) rows)"
      by (rule length_filter_mono) (use mono ij(1) j in blast)
    then show "fc ! i \<le> fc ! j"
      using m0 by (simp add: nthfc i j divide_right_mono)
  qed
  have fcne: "fc \<noteq> []" using lenfc by auto
  have "last fc = fc ! 99"
    unfolding last_conv_nth [OF fcne] lenfc by simp
  also have "\<dots> = real (length (filter (\<lambda>r. r ! 99) rows)) / real m"
    by (simp add: nthfc)
  also have "length (filter (\<lambda>r. r ! 99) rows)
           = length (filter (\<lambda>k. rows ! k ! 99) [0..<m])"
    using length_filter_nth [of "\<lambda>r. r ! 99" rows] by (simp add: lenr)
  also have "filter (\<lambda>k. rows ! k ! 99) [0..<m] = filter (\<lambda>k. k < n) [0..<m]"
    by (rule filter_cong) (use top in auto)
  also have "length \<dots> = min n m" by (rule count_below)
  finally have lst: "last fc = real (min n m) / real m" .
  show ?thesis using res lenfc srt lst by (auto simp: n_def m_def)
qed

lemma single_candidate_raises:
  "get_ROC_data argsort [[1, 0]] [[1, 0]] = Inl TypeError"
  by (simp add: get_ROC_data_def cosine_similarity_def)

text \<open>
  Claim C3, as stated, fails when the second set is larger than the first: a query whose
  position is beyond the first set is in no candidate pool, so with two candidates and
  three queries the fraction correct at threshold 1.0 is 2/3.
\<close>

theorem more_queries_than_candidates:
  "final_fraction (get_ROC_data argsort_desc [[1, 0], [0, 1]] [[1, 0], [0, 1], [1, 1]])
     = Some (2 / 3)"
proof -
  have d: "same_dimension [[1, 0], [0, 1]] [[1, 0], [0, 1], [1, 1]]"
    by (simp add: same_dimension_def)
  from roc_curve [OF argsort_desc_ok _ d] obtain fc where
    "get_ROC_data argsort_desc [[1, 0], [0, 1]] [[1, 0], [0, 1], [1, 1]] = Inr (thresholds, NArray fc)"
    "last fc = real (min (length [[1, 0], [0, 1 :: real]]) (length [[1, 0], [0, 1], [1, 1 :: real]]))
                 / real (length [[1, 0], [0, 1], [1, 1 :: real]])"
    by auto
  then show ?thesis by (simp add: final_fraction_def)
qed

text \<open>
  Claim C3, amended.  For embedding sets of one dimension, with at least two vectors in
  the first set and a non-empty second set no larger than the first, and for any
  ranking that is a permutation of the candidates, \<^verbatim>\<open>get_ROC_data\<close> returns the 100
  thresholds and 100 fraction-correct values that are non-decreasing along them, and
  the value at the last threshold, 1.0, is exactly 1.
\<close>

theorem roc_curve_monotone_to_one:
  assumes "argsort_ok argsort" and "same_dimension embs1 embs2"
    and "2 \<le> length embs1" and "embs2 \<noteq> []" and "length embs2 \<le> length embs1"
  shows "\<exists>fc. get_ROC_data argsort embs1 embs2 = Inr (thresholds, NArray fc)
           \<and> length fc = length thresholds \<and> sorted fc \<and> last thresholds = 1 \<and> last fc = 1"
proof -
  from assms(3) have "length embs1 \<noteq> 1" by simp
  from roc_curve [OF assms(1) this assms(2,4)] obtain fc where
    fc: "get_ROC_data argsort embs1 embs2 = Inr (thresholds, NArray fc)" "length fc = 100"
    "sorted fc" "last fc = real (min (length embs1) (length embs2)) / real (length embs2)"
    by blast
  have "last fc = 1" using fc(4) assms(4,5) by (simp add: min_absorb2)
  moreover have "last thresholds = 1" by (simp add: thresholds_def last_map)
  ultimately show ?thesis using fc by (auto simp: length_thresholds)
qed

text \<open>The amended claim C3 on two orthogonal vectors matched against themselves.\<close>

theorem roc_curve_monotone_to_one_witness:
  "argsort_ok argsort_desc \<and> same_dimension [[1, 0], [0, 1]] [[1, 0], [0, 1]]
   \<and> (2 :: nat) \<le> length [[1, 0], [0, 1 :: real]] \<and> [[1, 0], [0, 1 :: real]] \<noteq> []
   \<and> (\<exists>fc. get_ROC_data argsort_desc [[1, 0], [0, 1]] [[1, 0], [0, 1]] = Inr (thresholds, NArray fc)
           \<and> length fc = length thresholds \<and> sorted fc \<and> last thresholds = 1 \<and> last fc = 1)"
  using roc_curve_monotone_to_one [of argsort_desc "[[1, 0], [0, 1]]" "[[1, 0], [0, 1]]"]
    argsort_desc_ok
  by (simp add: same_dimension_def)

end
